theory Spec2Isabelle
  imports Complex_Main
begin

section \<open>The page's behaviour layer (main.js)\<close>

text \<open>
  The script keeps one status record, \<open>AppState\<close>, and binds a handful of controllers to
  the page. Every controller is modelled as a function on the part of the page it reads
  and writes; what the browser supplies (the scroll offset, the key pressed, the outcome
  of a clipboard write or of a request, the clock) is an argument.
\<close>

subsection \<open>Application state\<close>

text \<open>The field \<open>scrollDirection\<close> holds one of the strings 'up' and 'down'.\<close>

datatype direction = Up | Down

record AppState =
  initialized :: bool
  scrollDirection :: direction
  lastScrollY :: real
  navVisible :: bool
  mobileMenuOpen :: bool

definition AppState0 :: AppState where
  "AppState0 = \<lparr>initialized = False, scrollDirection = Down, lastScrollY = 0,
     navVisible = True, mobileMenuOpen = False\<rparr>"

subsection \<open>Sticky navigation: \<open>handleNavScroll\<close>\<close>

text \<open>
  \<open>handleNavScroll\<close> is a closure of \<open>setupFixedNav\<close>, created only when the \<open>.nav\<close>
  element exists. The page part is the status record and the class list of that element.
  The argument is \<open>window.scrollY\<close> at the time of the call; offsets are compared only,
  so they are taken as real numbers.
\<close>

record nav_page =
  nav_app :: AppState
  nav_classes :: "string set"

definition handleNavScroll :: "real \<Rightarrow> nav_page \<Rightarrow> nav_page" where
  "handleNavScroll currentScrollY p =
     (let p1 = (if currentScrollY > 50
                then p\<lparr>nav_classes := insert ''scrolled'' (nav_classes p)\<rparr>
                else p\<lparr>nav_classes := nav_classes p - {''scrolled''}\<rparr>);
          p2 = (if currentScrollY > lastScrollY (nav_app p1) \<and> currentScrollY > 100
                then p1\<lparr>nav_app := (nav_app p1)\<lparr>scrollDirection := Down, navVisible := False\<rparr>,
                        nav_classes := insert ''hidden'' (nav_classes p1)\<rparr>
                else p1\<lparr>nav_app := (nav_app p1)\<lparr>scrollDirection := Up, navVisible := True\<rparr>,
                        nav_classes := nav_classes p1 - {''hidden''}\<rparr>)
      in p2\<lparr>nav_app := (nav_app p2)\<lparr>lastScrollY := currentScrollY\<rparr>\<rparr>)"

subsection \<open>Mobile menu: \<open>setupMobileMenu\<close>\<close>

text \<open>
  The three elements looked up by \<open>setupMobileMenu\<close> are optional: \<open>None\<close> is a selector
  that found nothing, \<open>Some cs\<close> an element with class list \<open>cs\<close>. \<open>bodyOverflow\<close> is
  \<open>document.body.style.overflow\<close>.
\<close>

record menu_page =
  menu_app :: AppState
  hamburger :: "string set option"
  navLinks :: "string set option"
  overlay :: "string set option"
  bodyOverflow :: string

definition openMobileMenu :: "menu_page \<Rightarrow> menu_page" where
  "openMobileMenu p =
     p\<lparr>navLinks := map_option (insert ''active'') (navLinks p),
       hamburger := map_option (insert ''active'') (hamburger p),
       overlay := map_option (insert ''active'') (overlay p),
       bodyOverflow := ''hidden'',
       menu_app := (menu_app p)\<lparr>mobileMenuOpen := True\<rparr>\<rparr>"

definition closeMobileMenu :: "menu_page \<Rightarrow> menu_page" where
  "closeMobileMenu p =
     p\<lparr>navLinks := map_option (\<lambda>cs. cs - {''active''}) (navLinks p),
       hamburger := map_option (\<lambda>cs. cs - {''active''}) (hamburger p),
       overlay := map_option (\<lambda>cs. cs - {''active''}) (overlay p),
       bodyOverflow := '''',
       menu_app := (menu_app p)\<lparr>mobileMenuOpen := False\<rparr>\<rparr>"

definition toggleMobileMenu :: "menu_page \<Rightarrow> menu_page" where
  "toggleMobileMenu p =
     (if mobileMenuOpen (menu_app p) then closeMobileMenu p else openMobileMenu p)"

text \<open>
  The events the controller listens to. \<open>KeyDown k\<close> is a \<open>keydown\<close> on the document with
  \<open>e.key = k\<close>; \<open>LinkClick\<close> is a click on any \<open>a\<close> inside the links container.
\<close>

datatype menu_event = HamburgerClick | OverlayClick | LinkClick | KeyDown string

text \<open>
  \<open>menu_dispatch\<close> is the listener table that \<open>setupMobileMenu\<close> installs: nothing at all
  when the hamburger or the links container is missing, and no overlay listener when the
  overlay is missing.
\<close>

definition menu_dispatch :: "menu_page \<Rightarrow> menu_event \<Rightarrow> menu_page" where
  "menu_dispatch p e =
     (if hamburger p = None \<or> navLinks p = None then p
      else case e of
        HamburgerClick \<Rightarrow> toggleMobileMenu p
      | OverlayClick \<Rightarrow> (if overlay p \<noteq> None then closeMobileMenu p else p)
      | LinkClick \<Rightarrow> closeMobileMenu p
      | KeyDown k \<Rightarrow>
          (if k = ''Escape'' \<and> mobileMenuOpen (menu_app p) then closeMobileMenu p else p))"

text \<open>An event can reach the page only if the element it is raised on exists.\<close>

fun deliverable :: "menu_page \<Rightarrow> menu_event \<Rightarrow> bool" where
  "deliverable p HamburgerClick = (hamburger p \<noteq> None)"
| "deliverable p OverlayClick = (overlay p \<noteq> None)"
| "deliverable p LinkClick = (navLinks p \<noteq> None)"
| "deliverable p (KeyDown k) = True"

definition attached :: "menu_page \<Rightarrow> bool" where
  "attached p = (hamburger p \<noteq> None \<and> navLinks p \<noteq> None)"

text \<open>
  The two-state machine of the specification, written from its words: the hamburger
  toggles; overlay click, link click and Escape force closed.
\<close>

datatype menu_state = Closed | Opened

fun menu_spec :: "menu_state \<Rightarrow> menu_event \<Rightarrow> menu_state" where
  "menu_spec Closed HamburgerClick = Opened"
| "menu_spec Opened HamburgerClick = Closed"
| "menu_spec s OverlayClick = Closed"
| "menu_spec s LinkClick = Closed"
| "menu_spec s (KeyDown k) = (if k = ''Escape'' then Closed else s)"

definition menu_state_of :: "menu_page \<Rightarrow> menu_state" where
  "menu_state_of p = (if mobileMenuOpen (menu_app p) then Opened else Closed)"

text \<open>The styling that goes with the flag.\<close>

definition has_active :: "string set option \<Rightarrow> bool" where
  "has_active el = (case el of None \<Rightarrow> True | Some cs \<Rightarrow> ''active'' \<in> cs)"

definition lacks_active :: "string set option \<Rightarrow> bool" where
  "lacks_active el = (case el of None \<Rightarrow> True | Some cs \<Rightarrow> ''active'' \<notin> cs)"

definition styled_open :: "menu_page \<Rightarrow> bool" where
  "styled_open p = (has_active (navLinks p) \<and> has_active (hamburger p) \<and>
     has_active (overlay p) \<and> bodyOverflow p = ''hidden'')"

definition styled_closed :: "menu_page \<Rightarrow> bool" where
  "styled_closed p = (lacks_active (navLinks p) \<and> lacks_active (hamburger p) \<and>
     lacks_active (overlay p) \<and> bodyOverflow p = '''')"

definition menu_inv :: "menu_page \<Rightarrow> bool" where
  "menu_inv p = ((mobileMenuOpen (menu_app p) = styled_open p) \<and>
     (\<not> mobileMenuOpen (menu_app p) \<longrightarrow> styled_closed p))"

text \<open>An event runs a transition when it ends in \<open>openMobileMenu\<close> or \<open>closeMobileMenu\<close>.\<close>

definition runs_transition :: "menu_page \<Rightarrow> menu_event \<Rightarrow> bool" where
  "runs_transition p e =
     (attached p \<and>
      (case e of
         HamburgerClick \<Rightarrow> True
       | OverlayClick \<Rightarrow> overlay p \<noteq> None
       | LinkClick \<Rightarrow> True
       | KeyDown k \<Rightarrow> k = ''Escape'' \<and> mobileMenuOpen (menu_app p)))"

subsection \<open>Copy buttons: \<open>setupCopyButtons\<close>\<close>

text \<open>
  A button marked \<open>data-copy\<close>: its label, its class list, and the text of the \<open>code\<close>
  element inside the nearest enclosing \<open>.code-block\<close> (\<open>None\<close> when either is missing).
\<close>

record button =
  textContent :: string
  classList :: "string set"
  codeText :: "string option"

text \<open>
  The outcome of \<open>await navigator.clipboard.writeText(...)\<close>: the promise fulfils, or it
  rejects (or the clipboard object is missing and the call throws); both failures land
  in the same \<open>catch\<close>.
\<close>

datatype clipboard_result = Written | Refused

text \<open>
  The two closures handed to \<open>setTimeout\<close>. The first captures \<open>originalText\<close>.
\<close>

datatype callback = RestoreOriginal string | RestoreCopy

fun fire :: "callback \<Rightarrow> button \<Rightarrow> button" where
  "fire (RestoreOriginal originalText) b =
     b\<lparr>textContent := originalText, classList := classList b - {''copied''}\<rparr>"
| "fire RestoreCopy b = b\<lparr>textContent := ''Copy''\<rparr>"

text \<open>
  The page part: the clock in milliseconds, the buttons by index, and the pending timers
  in the order of their creation, each with its due time and the button its closure
  captured as \<open>this\<close>. No timer is ever cleared: the script has no \<open>clearTimeout\<close>.
\<close>

record copy_page =
  clock :: nat
  buttons :: "nat \<Rightarrow> button"
  timers :: "(nat \<times> nat \<times> callback) list"

text \<open>
  The click listener of button \<open>i\<close>, run at the moment the clipboard promise settles
  with result \<open>r\<close>: \<open>originalText\<close> is read after the \<open>await\<close>. The text handed to the
  clipboard, the trimmed \<open>code\<close>, is no part of the page and is left out.
\<close>

definition copy_click :: "nat \<Rightarrow> clipboard_result \<Rightarrow> copy_page \<Rightarrow> copy_page" where
  "copy_click i r p =
     (let this = buttons p i in
      case codeText this of
        None \<Rightarrow> p
      | Some code \<Rightarrow>
          (case r of
             Written \<Rightarrow>
               (let originalText = textContent this in
                p\<lparr>buttons := (buttons p)(i := this\<lparr>textContent := ''Copied!'',
                                  classList := insert ''copied'' (classList this)\<rparr>),
                  timers := timers p @ [(clock p + 2000, i, RestoreOriginal originalText)]\<rparr>)
           | Refused \<Rightarrow>
               p\<lparr>buttons := (buttons p)(i := this\<lparr>textContent := ''Failed''\<rparr>),
                 timers := timers p @ [(clock p + 2000, i, RestoreCopy)]\<rparr>))"

text \<open>
  The event loop up to time \<open>t\<close>: every timer due by then fires, earliest first and in
  creation order among equals, and leaves the list.
\<close>

definition run_callback :: "nat \<times> nat \<times> callback \<Rightarrow> (nat \<Rightarrow> button) \<Rightarrow> (nat \<Rightarrow> button)" where
  "run_callback tm bs = (case tm of (due, i, cb) \<Rightarrow> bs(i := fire cb (bs i)))"

definition advance :: "nat \<Rightarrow> copy_page \<Rightarrow> copy_page" where
  "advance t p =
     p\<lparr>clock := max t (clock p),
       buttons := fold run_callback (sort_key fst (filter (\<lambda>tm. fst tm \<le> t) (timers p))) (buttons p),
       timers := filter (\<lambda>tm. \<not> fst tm \<le> t) (timers p)\<rparr>"

definition pending_for :: "nat \<Rightarrow> copy_page \<Rightarrow> (nat \<times> nat \<times> callback) list" where
  "pending_for i p = filter (\<lambda>tm. fst (snd tm) = i) (timers p)"

subsection \<open>Double arithmetic\<close>

text \<open>
  Numbers are doubles; a finite double is taken as the rational it denotes. An operation
  gives the double nearest to the exact result, ties to the even significand, which has 53
  bits. \<open>rne a b\<close> is \<open>a / b\<close> rounded to the nearest integer, ties to even, and
  \<open>log2 n\<close> the exponent of the binade of \<open>n\<close>.
\<close>

fun log2 :: "nat \<Rightarrow> nat" where
  "log2 n = (if n < 2 then 0 else Suc (log2 (n div 2)))"

definition rne :: "nat \<Rightarrow> nat \<Rightarrow> nat" where
  "rne a b =
     (let q = a div b; r = a mod b in
      if 2 * r < b then q else if b < 2 * r then q + 1 else if even q then q else q + 1)"

text \<open>
  The division \<open>n / d\<close> of two positive integers with \<open>d \<le> n\<close>: the quotient lies in the
  binade \<open>2 ^ e\<close> with \<open>e = log2 (n div d)\<close>.
\<close>

definition fl_div :: "nat \<Rightarrow> nat \<Rightarrow> rat" where
  "fl_div n d =
     (let e = log2 (n div d) in
      if e \<le> 52 then of_nat (rne (n * 2 ^ (52 - e)) d) / 2 ^ (52 - e)
      else of_nat (rne n (d * 2 ^ (e - 52))) * 2 ^ (e - 52))"

text \<open>
  The double nearest to any fraction \<open>n / d\<close>: below 1 the binade is \<open>2 ^ - k\<close> for the
  least \<open>k\<close> with \<open>d \<le> n * 2 ^ k\<close>. And \<open>fl x\<close>, the double nearest to the rational \<open>x\<close>;
  rounding is symmetric in the sign. The exponent is not bounded here: \<open>fl\<close> is the
  rounding of binary64 wherever the result is below \<open>2 ^ 1024\<close>, a sum or difference of
  two doubles that falls among the subnormal numbers being exact in both.
\<close>

definition fl_quot :: "nat \<Rightarrow> nat \<Rightarrow> rat" where
  "fl_quot n d =
     (if n = 0 then 0
      else if d \<le> n then fl_div n d
      else (let k = Suc (log2 ((d - 1) div n)) in
            of_nat (rne (n * 2 ^ (52 + k)) d) / 2 ^ (52 + k)))"

definition fl :: "rat \<Rightarrow> rat" where
  "fl x =
     (case quotient_of x of
        (a, b) \<Rightarrow> if a < 0 then - fl_quot (nat (- a)) (nat b) else fl_quot (nat a) (nat b))"

text \<open>The operators \<open>+\<close> and \<open>-\<close> on two doubles.\<close>

definition dadd :: "rat \<Rightarrow> rat \<Rightarrow> rat" where
  "dadd x y = fl (x + y)"

definition dsub :: "rat \<Rightarrow> rat \<Rightarrow> rat" where
  "dsub x y = fl (x - y)"

subsection \<open>Same-page anchors: \<open>setupSmoothScroll\<close>\<close>

text \<open>
  What \<open>document.querySelector(targetId)\<close> does with the link's \<open>href\<close>: it throws on a
  string that is no valid selector, returns \<open>null\<close>, or returns an element, of which the
  handler reads \<open>getBoundingClientRect().top\<close>.
\<close>

datatype lookup = Invalid | Missing | Found rat

text \<open>
  The page part: the vertical scroll offset, the \<open>top\<close> of the last smooth
  \<open>window.scrollTo\<close> requested, the fragment of the visible URL, and the entries of the
  session history up to the current one. Offsets are doubles.
\<close>

record scroll_page =
  scrollY :: rat
  smoothScrollTo :: "rat option"
  fragment :: string
  entries :: "string list"

record click_result =
  page_after :: scroll_page
  defaultPrevented :: bool
  uncaught :: bool

text \<open>
  \<open>history.pushState(null, null, url)\<close>: a new history entry with the given URL becomes
  the current one; the document is neither navigated nor scrolled.
\<close>

definition pushState :: "string \<Rightarrow> scroll_page \<Rightarrow> scroll_page" where
  "pushState url p = p\<lparr>fragment := url, entries := entries p @ [url]\<rparr>"

text \<open>
  The click listener of an \<open>a[href^="#"]\<close> link. \<open>hasPushState\<close> is the truth value of
  \<open>history.pushState\<close>, \<open>targetId\<close> the link's \<open>href\<close>, \<open>found\<close> the outcome of the lookup.
  The position is \<open>elementPosition + window.scrollY - headerOffset\<close>, two operations on
  doubles, each of which rounds.
\<close>

definition anchor_click :: "bool \<Rightarrow> string \<Rightarrow> lookup \<Rightarrow> scroll_page \<Rightarrow> click_result" where
  "anchor_click hasPushState targetId found p =
     (if targetId = ''#'' then \<lparr>page_after = p, defaultPrevented = False, uncaught = False\<rparr>
      else case found of
        Invalid \<Rightarrow> \<lparr>page_after = p, defaultPrevented = False, uncaught = True\<rparr>
      | Missing \<Rightarrow> \<lparr>page_after = p, defaultPrevented = False, uncaught = False\<rparr>
      | Found elementPosition \<Rightarrow>
          (let headerOffset = 80;
               offsetPosition = dsub (dadd elementPosition (scrollY p)) headerOffset;
               p1 = p\<lparr>smoothScrollTo := Some offsetPosition\<rparr>;
               p2 = (if hasPushState then pushState targetId p1 else p1)
           in \<lparr>page_after = p2, defaultPrevented = True, uncaught = False\<rparr>))"

text \<open>
  The browser's own part of a click on such a link, which is not code of the script: when
  no listener called \<open>preventDefault\<close> the link is followed. Following a same-page link
  makes its fragment the visible one, adds a history entry unless the URL is the current
  one, and jumps to the indicated part of the document if there is one (\<open>indicated\<close> is
  its offset).
\<close>

definition follow_link :: "string \<Rightarrow> rat option \<Rightarrow> scroll_page \<Rightarrow> scroll_page" where
  "follow_link targetId indicated p =
     p\<lparr>fragment := targetId,
       entries := (if fragment p = targetId then entries p else entries p @ [targetId]),
       scrollY := (case indicated of None \<Rightarrow> scrollY p | Some y \<Rightarrow> y)\<rparr>"

definition click_link ::
  "bool \<Rightarrow> string \<Rightarrow> lookup \<Rightarrow> rat option \<Rightarrow> scroll_page \<Rightarrow> scroll_page" where
  "click_link hasPushState targetId found indicated p =
     (let r = anchor_click hasPushState targetId found p in
      if defaultPrevented r then page_after r
      else follow_link targetId indicated (page_after r))"

subsection \<open>Numbers and their text\<close>

text \<open>
  The values the statistics code handles: \<open>undefined\<close>, \<open>null\<close>, a number or an object
  with its properties. A number stands for a count as the two services report it, a
  non-negative integer; strings, booleans and arrays are not modelled.
\<close>

datatype jsval = Undefined | Null | Num nat | Obj "(string \<times> jsval) list"

datatype error = TypeError | SyntaxError | NetworkFailure | ApiFailed

text \<open>
  Reading a property \<open>v.k\<close>: a type error on \<open>undefined\<close> and \<open>null\<close>, \<open>undefined\<close> where
  the property is missing.
\<close>

fun get_prop :: "jsval \<Rightarrow> string \<Rightarrow> error + jsval" where
  "get_prop Undefined k = Inl TypeError"
| "get_prop Null k = Inl TypeError"
| "get_prop (Num n) k = Inr Undefined"
| "get_prop (Obj fs) k = Inr (case map_of fs k of None \<Rightarrow> Undefined | Some v \<Rightarrow> v)"

text \<open>
  An object is a list of its own properties, the first binding of a name being the
  property. Only names that \<open>Object.prototype\<close> does not define are read with
  \<open>get_prop\<close>. Where an object is used as a number it is converted through its \<open>valueOf\<close>
  and \<open>toString\<close>: no value that JSON gives is callable, so an own property \<open>toString\<close>,
  hiding the inherited method, makes the conversion throw; without one the object
  converts to the string \<open>[object Object]\<close>, which is no number.
\<close>

definition own_toString :: "(string \<times> jsval) list \<Rightarrow> bool" where
  "own_toString fs = (map_of fs ''toString'' \<noteq> None)"

text \<open>\<open>Number.prototype.toString\<close> of a non-negative integer: its decimal digits.\<close>

definition digit :: "nat \<Rightarrow> char" where
  "digit d = ''0123456789'' ! d"

fun decimal :: "nat \<Rightarrow> string" where
  "decimal n = (if n < 10 then [digit n] else decimal (n div 10) @ [digit (n mod 10)])"

text \<open>
  \<open>x.toFixed(1)\<close> for \<open>0 \<le> x < 10 ^ 21\<close>: the integer \<open>k\<close> with \<open>k / 10\<close> nearest to the
  exact value of \<open>x\<close>, the larger one of two, printed with a point before its last digit.
\<close>

definition toFixed1 :: "rat \<Rightarrow> string" where
  "toFixed1 x = (let k = nat \<lfloor>10 * x + 1 / 2\<rfloor> in decimal (k div 10) @ ''.'' @ decimal (k mod 10))"

text \<open>
  \<open>formatNumber\<close>. The first comparison converts \<open>num\<close> to a number and throws where
  that throws. Both comparisons are false on \<open>undefined\<close>, \<open>null\<close> and any other object,
  so these reach \<open>num.toString()\<close>, which throws on the first two.
\<close>

fun formatNumber :: "jsval \<Rightarrow> error + string" where
  "formatNumber (Num num) =
     Inr (if num \<ge> 1000000 then toFixed1 (fl_div num 1000000) @ ''M''
          else if num \<ge> 1000 then toFixed1 (fl_div num 1000) @ ''k''
          else decimal num)"
| "formatNumber Undefined = Inl TypeError"
| "formatNumber Null = Inl TypeError"
| "formatNumber (Obj fs) = (if own_toString fs then Inl TypeError else Inr ''[object Object]'')"

text \<open>The placeholder is the em dash U+2014, here in its three bytes of UTF-8.\<close>

definition placeholder :: string where
  "placeholder = [CHR 0xE2, CHR 0x80, CHR 0x94]"

text \<open>
  The expression \<open>v !== null ? formatNumber(v) : placeholder\<close> of the two renderers;
  \<open>badge_value stats k\<close> below is the same with \<open>stats.k\<close> for \<open>v\<close>.
\<close>

definition badge_text :: "jsval \<Rightarrow> error + string" where
  "badge_text v = (if v \<noteq> Null then formatNumber v else Inr placeholder)"

text \<open>
  What the specification says of a rendered number, in its words: the quotient to one
  decimal place, that is a tenth \<open>k / 10\<close> nearest to it, printed with one decimal.
\<close>

definition nearest_tenth :: "nat \<Rightarrow> nat \<Rightarrow> nat \<Rightarrow> bool" where
  "nearest_tenth k n d = (\<bar>(of_nat k :: rat) / 10 - of_nat n / of_nat d\<bar> \<le> 1 / 20)"

definition one_decimal :: "nat \<Rightarrow> string" where
  "one_decimal k = decimal (k div 10) @ ''.'' @ decimal (k mod 10)"

subsection \<open>The statistics fetchers\<close>

text \<open>
  A string held by \<open>sessionStorage\<close>, seen through \<open>if (cached)\<close> and \<open>JSON.parse\<close>: the
  empty string is falsy, other strings either fail to parse or parse to a value. A value
  written by \<open>JSON.stringify\<close> is kept as the value it parses back to; a property that is
  \<open>undefined\<close>, which \<open>JSON.stringify\<close> leaves out, reads as \<open>undefined\<close> either way.
\<close>

datatype stored = EmptyString | NotJson | Json jsval

text \<open>
  What \<open>await fetch(url)\<close> and \<open>await response.json()\<close> give: the request fails, or a
  response arrives with its \<open>ok\<close> flag and a body that is JSON (\<open>Some\<close>) or is not.
\<close>

datatype http = NetworkError | Response bool "jsval option"

text \<open>
  The page part: the session storage, the text of the first element carrying each
  \<open>data-stat\<close> mark (\<open>None\<close> when there is none), the URLs requested with \<open>fetch\<close>, and the
  lines written with \<open>console.error\<close>.
\<close>

record stats_page =
  sessionStorage :: "string \<Rightarrow> stored option"
  starsEl :: "string option"
  forksEl :: "string option"
  downloadsEl :: "string option"
  requests :: "string list"
  console :: "(string \<times> error) list"

text \<open>
  A run either completes or throws; either way the page is as the run left it.
\<close>

datatype 'a completion = Normal 'a | Raised error 'a

definition cacheTTL :: int where
  "cacheTTL = 5 * 60 * 1000"

text \<open>
  \<open>Date.now() - timestamp < cacheTTL\<close>: \<open>null\<close> counts as 0, the subtraction throws where
  converting the timestamp to a number throws, and the comparison is false when the
  timestamp is no number. Both times being integers, the difference is compared exactly.
\<close>

fun fresh :: "nat \<Rightarrow> jsval \<Rightarrow> error + bool" where
  "fresh now (Num timestamp) = Inr (int now - int timestamp < cacheTTL)"
| "fresh now Null = Inr (int now < cacheTTL)"
| "fresh now Undefined = Inr False"
| "fresh now (Obj fs) = (if own_toString fs then Inl TypeError else Inr False)"

definition badge_value :: "jsval \<Rightarrow> string \<Rightarrow> error + string" where
  "badge_value stats k = (case get_prop stats k of Inl e \<Rightarrow> Inl e | Inr v \<Rightarrow> badge_text v)"

definition updateGitHubUI :: "jsval \<Rightarrow> stats_page \<Rightarrow> stats_page completion" where
  "updateGitHubUI stats p =
     (case (if starsEl p = None then Inr p
            else case badge_value stats ''stars'' of
              Inl e \<Rightarrow> Inl e
            | Inr s \<Rightarrow> Inr (p\<lparr>starsEl := Some s\<rparr>)) of
        Inl e \<Rightarrow> Raised e p
      | Inr p1 \<Rightarrow>
          (case (if forksEl p1 = None then Inr p1
                 else case badge_value stats ''forks'' of
                   Inl e \<Rightarrow> Inl e
                 | Inr s \<Rightarrow> Inr (p1\<lparr>forksEl := Some s\<rparr>)) of
             Inl e \<Rightarrow> Raised e p1
           | Inr p2 \<Rightarrow> Normal p2))"

definition updateNpmUI :: "jsval \<Rightarrow> stats_page \<Rightarrow> stats_page completion" where
  "updateNpmUI downloads p =
     (if downloadsEl p = None then Normal p
      else case badge_text downloads of
        Inl e \<Rightarrow> Raised e p
      | Inr s \<Rightarrow> Normal (p\<lparr>downloadsEl := Some s\<rparr>))"

definition github_key :: string where
  "github_key = ''omx-github-stats''"

definition github_url :: string where
  "github_url = ''https://api.github.com/repos/Yeachan-Heo/oh-my-codex''"

definition npm_key :: string where
  "npm_key = ''omx-npm-downloads''"

definition npm_url :: string where
  "npm_url = ''https://api.npmjs.org/downloads/point/last-month/oh-my-codex''"

text \<open>
  The environment of one call: \<open>Date.now()\<close> at the cache check, the reply to the
  request, and \<open>Date.now()\<close> at the cache write.
\<close>

record env =
  now_check :: nat
  reply :: http
  now_write :: nat

text \<open>The part of the \<open>try\<close> block from \<open>fetch\<close> on.\<close>

definition github_refresh :: "env \<Rightarrow> stats_page \<Rightarrow> stats_page completion" where
  "github_refresh ev p =
     (let p1 = p\<lparr>requests := requests p @ [github_url]\<rparr> in
      case reply ev of
        NetworkError \<Rightarrow> Raised NetworkFailure p1
      | Response ok body \<Rightarrow>
          if \<not> ok then Raised ApiFailed p1
          else case body of
            None \<Rightarrow> Raised SyntaxError p1
          | Some data \<Rightarrow>
              (case get_prop data ''stargazers_count'' of
                 Inl e \<Rightarrow> Raised e p1
               | Inr stargazers_count \<Rightarrow>
                   (case get_prop data ''forks_count'' of
                      Inl e \<Rightarrow> Raised e p1
                    | Inr forks_count \<Rightarrow>
                        (let stats = Obj [(''stars'', stargazers_count), (''forks'', forks_count)];
                             p2 = p1\<lparr>sessionStorage := (sessionStorage p1)(github_key \<mapsto>
                                   Json (Obj [(''data'', stats), (''timestamp'', Num (now_write ev))]))\<rparr>
                         in updateGitHubUI stats p2))))"

text \<open>The whole \<open>try\<close> block.\<close>

definition github_try :: "env \<Rightarrow> stats_page \<Rightarrow> stats_page completion" where
  "github_try ev p =
     (case sessionStorage p github_key of
        None \<Rightarrow> github_refresh ev p
      | Some EmptyString \<Rightarrow> github_refresh ev p
      | Some NotJson \<Rightarrow> Raised SyntaxError p
      | Some (Json parsed) \<Rightarrow>
          (case get_prop parsed ''data'' of
             Inl e \<Rightarrow> Raised e p
           | Inr data \<Rightarrow>
               (case get_prop parsed ''timestamp'' of
                  Inl e \<Rightarrow> Raised e p
                | Inr timestamp \<Rightarrow>
                    (case fresh (now_check ev) timestamp of
                       Inl e \<Rightarrow> Raised e p
                     | Inr young \<Rightarrow>
                         if young then updateGitHubUI data p else github_refresh ev p))))"

definition fetchGitHubStats :: "env \<Rightarrow> stats_page \<Rightarrow> stats_page completion" where
  "fetchGitHubStats ev p =
     (case github_try ev p of
        Normal p' \<Rightarrow> Normal p'
      | Raised err p' \<Rightarrow>
          updateGitHubUI (Obj [(''stars'', Null), (''forks'', Null)])
            (p'\<lparr>console := console p' @ [(''[OMX] Failed to fetch GitHub stats:'', err)]\<rparr>))"

definition npm_refresh :: "env \<Rightarrow> stats_page \<Rightarrow> stats_page completion" where
  "npm_refresh ev p =
     (let p1 = p\<lparr>requests := requests p @ [npm_url]\<rparr> in
      case reply ev of
        NetworkError \<Rightarrow> Raised NetworkFailure p1
      | Response ok body \<Rightarrow>
          if \<not> ok then Raised ApiFailed p1
          else case body of
            None \<Rightarrow> Raised SyntaxError p1
          | Some data \<Rightarrow>
              (case get_prop data ''downloads'' of
                 Inl e \<Rightarrow> Raised e p1
               | Inr downloads \<Rightarrow>
                   (let p2 = p1\<lparr>sessionStorage := (sessionStorage p1)(npm_key \<mapsto>
                              Json (Obj [(''data'', downloads), (''timestamp'', Num (now_write ev))]))\<rparr>
                    in updateNpmUI downloads p2)))"

definition npm_try :: "env \<Rightarrow> stats_page \<Rightarrow> stats_page completion" where
  "npm_try ev p =
     (case sessionStorage p npm_key of
        None \<Rightarrow> npm_refresh ev p
      | Some EmptyString \<Rightarrow> npm_refresh ev p
      | Some NotJson \<Rightarrow> Raised SyntaxError p
      | Some (Json parsed) \<Rightarrow>
          (case get_prop parsed ''data'' of
             Inl e \<Rightarrow> Raised e p
           | Inr data \<Rightarrow>
               (case get_prop parsed ''timestamp'' of
                  Inl e \<Rightarrow> Raised e p
                | Inr timestamp \<Rightarrow>
                    (case fresh (now_check ev) timestamp of
                       Inl e \<Rightarrow> Raised e p
                     | Inr young \<Rightarrow>
                         if young then updateNpmUI data p else npm_refresh ev p))))"

definition fetchNpmDownloads :: "env \<Rightarrow> stats_page \<Rightarrow> stats_page completion" where
  "fetchNpmDownloads ev p =
     (case npm_try ev p of
        Normal p' \<Rightarrow> Normal p'
      | Raised err p' \<Rightarrow>
          updateNpmUI Null
            (p'\<lparr>console := console p' @ [(''[OMX] Failed to fetch npm downloads:'', err)]\<rparr>))"

text \<open>The page a completed or failed run leaves.\<close>

fun page_of :: "'a completion \<Rightarrow> 'a" where
  "page_of (Normal p) = p"
| "page_of (Raised e p) = p"

fun is_Normal :: "'a completion \<Rightarrow> bool" where
  "is_Normal (Normal p) = True"
| "is_Normal (Raised e p) = False"

subsection \<open>Auxiliary notions for the properties\<close>

text \<open>A page whose menu elements all exist, as loaded: nothing is active.\<close>

definition page0 :: menu_page where
  "page0 = \<lparr>menu_app = AppState0, hamburger = Some {}, navLinks = Some {},
     overlay = Some {}, bodyOverflow = ''''\<rparr>"

text \<open>
  Timers are created with a fixed delay while the clock only moves forward, so the list
  is ordered by due time and nothing is due later than 2000 ms from now.
\<close>

definition timers_ok :: "copy_page \<Rightarrow> bool" where
  "timers_ok p = (sorted (map fst (timers p)) \<and> (\<forall>tm \<in> set (timers p). fst tm \<le> clock p + 2000))"

text \<open>The closure a click schedules, and the effect of a timer on its button.\<close>

definition restore_of :: "clipboard_result \<Rightarrow> button \<Rightarrow> callback" where
  "restore_of r b = (case r of Written \<Rightarrow> RestoreOriginal (textContent b) | Refused \<Rightarrow> RestoreCopy)"

definition fire_timer :: "nat \<times> nat \<times> callback \<Rightarrow> button \<Rightarrow> button" where
  "fire_timer tm b = fire (snd (snd tm)) b"

text \<open>
  What happens to the copy buttons, one event after the other: a click on a button whose
  clipboard write settles with the given result, or time passing to a given instant.
\<close>

datatype copy_event = Click nat clipboard_result | Tick nat

fun copy_step :: "copy_page \<Rightarrow> copy_event \<Rightarrow> copy_page" where
  "copy_step p (Click i r) = copy_click i r p"
| "copy_step p (Tick t) = advance t p"

text \<open>
  A page of copy buttons labelled Copy code, each next to a code block, with no timer
  pending. The same page after a successful click on button 0 at 0 ms, seen at 500 ms;
  after two successful clicks on it, at 0 ms and at 500 ms; and after a failed click at
  0 ms and a successful one at 1000 ms.
\<close>

definition copy0 :: copy_page where
  "copy0 = \<lparr>clock = 0,
     buttons = (\<lambda>i. \<lparr>textContent = ''Copy code'', classList = {},
                      codeText = Some ''npm install -g oh-my-codex''\<rparr>),
     timers = []\<rparr>"

definition one_pending :: copy_page where
  "one_pending = foldl copy_step copy0 [Click 0 Written, Tick 500]"

definition two_clicks :: copy_page where
  "two_clicks = copy_click 0 Written (advance 500 (copy_click 0 Written copy0))"

definition mixed_clicks :: copy_page where
  "mixed_clicks = copy_click 0 Written (advance 1000 (copy_click 0 Refused copy0))"

text \<open>A page scrolled to 300 with no fragment in its URL.\<close>

definition scroll0 :: scroll_page where
  "scroll0 = \<lparr>scrollY = 300, smoothScrollTo = None, fragment = '''', entries = ['''']\<rparr>"

text \<open>A page scrolled by one pixel, for a target very far down.\<close>

definition scroll1 :: scroll_page where
  "scroll1 = \<lparr>scrollY = 1, smoothScrollTo = None, fragment = '''', entries = ['''']\<rparr>"

text \<open>
  The failures of a request that the \<open>try\<close> block meets before it writes the cache: no
  response, a response that is not ok, a body that is not JSON, the JSON body \<open>null\<close>.
\<close>

definition pre_write_failure :: "http \<Rightarrow> bool" where
  "pre_write_failure r =
     (case r of NetworkError \<Rightarrow> True
      | Response ok body \<Rightarrow> \<not> ok \<or> body = None \<or> body = Some Null)"

text \<open>
  The cache entry \<open>{ data, timestamp }\<close>; a page with all three badges and an empty
  storage, the same with an entry 4 minutes and 6 minutes old at 1000000 ms; a reply
  \<open>200 {}\<close> and a failed request.
\<close>

definition cached_at :: "nat \<Rightarrow> jsval \<Rightarrow> stored" where
  "cached_at timestamp data = Json (Obj [(''data'', data), (''timestamp'', Num timestamp)])"

definition stats0 :: stats_page where
  "stats0 = \<lparr>sessionStorage = Map.empty, starsEl = Some ''...'', forksEl = Some ''...'',
     downloadsEl = Some ''...'', requests = [], console = []\<rparr>"

definition hit_page :: stats_page where
  "hit_page = stats0\<lparr>sessionStorage := [npm_key \<mapsto> cached_at 760000 (Num 999)]\<rparr>"

definition stale_page :: stats_page where
  "stale_page = stats0\<lparr>sessionStorage := [npm_key \<mapsto> cached_at 640000 (Num 999)]\<rparr>"

definition env0 :: env where
  "env0 = \<lparr>now_check = 1000000, reply = Response True (Some (Obj [])), now_write = 1000250\<rparr>"

definition env_down :: env where
  "env_down = \<lparr>now_check = 1000000, reply = NetworkError, now_write = 1000250\<rparr>"

text \<open>
  The entry under a key as the cache check sees it: its payload and its age, where it
  parses to a value with a numeric timestamp.
\<close>

fun entry_age :: "nat \<Rightarrow> stored option \<Rightarrow> (jsval \<times> int) option" where
  "entry_age now (Some (Json parsed)) =
     (case (get_prop parsed ''data'', get_prop parsed ''timestamp'') of
        (Inr data, Inr (Num timestamp)) \<Rightarrow> Some (data, int now - int timestamp)
      | _ \<Rightarrow> None)"
| "entry_age now _ = None"

text \<open>
  A page on which the badges of a fetcher show given texts, and a page with one more line
  on the console.
\<close>

definition github_shows :: "string \<Rightarrow> string \<Rightarrow> stats_page \<Rightarrow> stats_page" where
  "github_shows a b p =
     p\<lparr>starsEl := map_option (\<lambda>_. a) (starsEl p), forksEl := map_option (\<lambda>_. b) (forksEl p)\<rparr>"

definition npm_shows :: "string \<Rightarrow> stats_page \<Rightarrow> stats_page" where
  "npm_shows a p = p\<lparr>downloadsEl := map_option (\<lambda>_. a) (downloadsEl p)\<rparr>"

definition logged :: "string \<Rightarrow> error \<Rightarrow> stats_page \<Rightarrow> stats_page" where
  "logged msg e p = p\<lparr>console := console p @ [(msg, e)]\<rparr>"

text \<open>
  A reply \<open>200\<close> that carries the stars but not the forks, read at 759000 ms and cached at
  760000 ms; the page with the entry this leaves, 4 minutes old at 1000000 ms; and a page
  with a complete entry of the same age.
\<close>

definition env_partial :: env where
  "env_partial = \<lparr>now_check = 759000,
     reply = Response True (Some (Obj [(''stargazers_count'', Num 999)])), now_write = 760000\<rparr>"

definition partial_page :: stats_page where
  "partial_page = stats0\<lparr>sessionStorage :=
     [github_key \<mapsto> cached_at 760000 (Obj [(''stars'', Num 999), (''forks'', Undefined)])]\<rparr>"

definition github_hit_page :: stats_page where
  "github_hit_page = stats0\<lparr>sessionStorage :=
     [github_key \<mapsto> cached_at 760000 (Obj [(''stars'', Num 999), (''forks'', Null)])]\<rparr>"

section \<open>Properties\<close>

declare log2.simps [simp del] decimal.simps [simp del]

subsection \<open>Sticky navigation and mobile menu\<close>

text \<open>
  Claim C3. Whatever the previous offset and the current one, the update classifies the
  direction as down, hides the navigation and clears \<open>navVisible\<close> exactly when the current
  offset exceeds both the previous offset and 100; otherwise, also at 100 itself, it
  classifies up, shows the navigation and sets \<open>navVisible\<close>; in both cases the current
  offset becomes the previous one.
\<close>

theorem handleNavScroll_direction:
  "(scrollDirection (nav_app (handleNavScroll currentY p)) = Down
      \<longleftrightarrow> currentY > lastScrollY (nav_app p) \<and> currentY > 100) \<and>
   (scrollDirection (nav_app (handleNavScroll currentY p)) = Up
      \<longleftrightarrow> \<not> (currentY > lastScrollY (nav_app p) \<and> currentY > 100)) \<and>
   (''hidden'' \<in> nav_classes (handleNavScroll currentY p)
      \<longleftrightarrow> currentY > lastScrollY (nav_app p) \<and> currentY > 100) \<and>
   (navVisible (nav_app (handleNavScroll currentY p))
      \<longleftrightarrow> \<not> (currentY > lastScrollY (nav_app p) \<and> currentY > 100)) \<and>
   scrollDirection (nav_app (handleNavScroll 100 p)) = Up \<and>
   navVisible (nav_app (handleNavScroll 100 p)) \<and>
   ''hidden'' \<notin> nav_classes (handleNavScroll 100 p) \<and>
   lastScrollY (nav_app (handleNavScroll currentY p)) = currentY"
  by (simp add: handleNavScroll_def Let_def)

theorem handleNavScroll_direction_witness:
  "scrollDirection (nav_app (handleNavScroll 150 \<lparr>nav_app = AppState0, nav_classes = {}\<rparr>)) = Down \<and>
   \<not> navVisible (nav_app (handleNavScroll 150 \<lparr>nav_app = AppState0, nav_classes = {}\<rparr>)) \<and>
   ''hidden'' \<in> nav_classes (handleNavScroll 150 \<lparr>nav_app = AppState0, nav_classes = {}\<rparr>) \<and>
   scrollDirection (nav_app (handleNavScroll 100 \<lparr>nav_app = AppState0, nav_classes = {}\<rparr>)) = Up \<and>
   lastScrollY (nav_app (handleNavScroll 150 \<lparr>nav_app = AppState0, nav_classes = {}\<rparr>)) = 150"
  using handleNavScroll_direction [of 150 "\<lparr>nav_app = AppState0, nav_classes = {}\<rparr>"]
  by (simp add: AppState0_def)

lemma dispatch_keeps_elements:
  "(hamburger (menu_dispatch p e) = None) = (hamburger p = None) \<and>
   (navLinks (menu_dispatch p e) = None) = (navLinks p = None) \<and>
   (overlay (menu_dispatch p e) = None) = (overlay p = None)"
  by (cases e) (simp_all add: menu_dispatch_def toggleMobileMenu_def openMobileMenu_def
      closeMobileMenu_def)

lemma dispatch_attached: "attached (menu_dispatch p e) = attached p"
  by (simp add: attached_def dispatch_keeps_elements)

lemma dispatch_deliverable: "deliverable (menu_dispatch p e) e' = deliverable p e'"
  by (cases e') (simp_all add: dispatch_keeps_elements)

lemma dispatch_refines:
  assumes "attached p" and "deliverable p e"
  shows "menu_state_of (menu_dispatch p e) = menu_spec (menu_state_of p) e"
  using assms
  by (cases e) (auto simp: attached_def menu_dispatch_def toggleMobileMenu_def
      openMobileMenu_def closeMobileMenu_def menu_state_of_def)

lemma run_refines:
  assumes "attached p" and "\<forall>e \<in> set es. deliverable p e"
  shows "menu_state_of (foldl menu_dispatch p es) = foldl menu_spec (menu_state_of p) es"
  using assms
proof (induction es arbitrary: p)
  case Nil
  show ?case by simp
next
  case (Cons e es)
  have "attached (menu_dispatch p e)" using Cons.prems(1) by (simp add: dispatch_attached)
  moreover have "\<forall>e' \<in> set es. deliverable (menu_dispatch p e) e'"
    using Cons.prems(2) by (simp add: dispatch_deliverable)
  ultimately have "menu_state_of (foldl menu_dispatch (menu_dispatch p e) es)
      = foldl menu_spec (menu_state_of (menu_dispatch p e)) es"
    by (rule Cons.IH)
  moreover have "menu_state_of (menu_dispatch p e) = menu_spec (menu_state_of p) e"
    using Cons.prems by (intro dispatch_refines) simp_all
  ultimately show ?case by simp
qed

lemma close_when_closed:
  assumes "\<not> mobileMenuOpen (menu_app p)" and "styled_closed p"
  shows "closeMobileMenu p = p"
proof -
  have "map_option (\<lambda>cs. cs - {''active''}) el = el" if "lacks_active el" for el
    using that by (cases el) (simp_all add: lacks_active_def)
  then show ?thesis
    using assms by (simp add: closeMobileMenu_def styled_closed_def)
qed

text \<open>
  Claim C9. With the controller attached, the open flag follows the two-state machine of
  the specification along every sequence of events that can reach the page, starting
  closed: the hamburger toggles; overlay click, link click and Escape close, and leave a
  closed menu as it is.
\<close>

theorem mobile_menu_two_state:
  assumes "attached p" and "\<forall>e \<in> set es. deliverable p e"
  shows "menu_state_of (foldl menu_dispatch p es) = foldl menu_spec (menu_state_of p) es \<and>
    (menu_app p = AppState0 \<longrightarrow> menu_state_of p = Closed) \<and>
    (menu_state_of p = Closed \<longrightarrow> menu_state_of (menu_dispatch p HamburgerClick) = Opened) \<and>
    (menu_state_of p = Opened \<longrightarrow> menu_state_of (menu_dispatch p HamburgerClick) = Closed) \<and>
    (overlay p \<noteq> None \<longrightarrow> menu_state_of (menu_dispatch p OverlayClick) = Closed) \<and>
    menu_state_of (menu_dispatch p LinkClick) = Closed \<and>
    menu_state_of (menu_dispatch p (KeyDown ''Escape'')) = Closed \<and>
    (menu_state_of p = Closed \<and> styled_closed p \<longrightarrow>
       menu_dispatch p OverlayClick = p \<and> menu_dispatch p LinkClick = p \<and>
       menu_dispatch p (KeyDown ''Escape'') = p)"
proof -
  have run: "menu_state_of (foldl menu_dispatch p es) = foldl menu_spec (menu_state_of p) es"
    using assms by (rule run_refines)
  have init: "menu_app p = AppState0 \<longrightarrow> menu_state_of p = Closed"
    by (simp add: menu_state_of_def AppState0_def)
  have ham: "menu_state_of (menu_dispatch p HamburgerClick) = menu_spec (menu_state_of p) HamburgerClick"
    using assms(1) by (intro dispatch_refines) (simp_all add: attached_def)
  have ov: "overlay p \<noteq> None \<longrightarrow> menu_state_of (menu_dispatch p OverlayClick) = Closed"
    using assms(1) dispatch_refines [of p OverlayClick] by simp
  have lk: "menu_state_of (menu_dispatch p LinkClick) = Closed"
    using assms(1) dispatch_refines [of p LinkClick] by (simp add: attached_def)
  have esc: "menu_state_of (menu_dispatch p (KeyDown ''Escape'')) = Closed"
    using assms(1) dispatch_refines [of p "KeyDown ''Escape''"] by simp
  have noop: "menu_state_of p = Closed \<and> styled_closed p \<longrightarrow>
       menu_dispatch p OverlayClick = p \<and> menu_dispatch p LinkClick = p \<and>
       menu_dispatch p (KeyDown ''Escape'') = p"
  proof
    assume a: "menu_state_of p = Closed \<and> styled_closed p"
    then have c: "\<not> mobileMenuOpen (menu_app p)"
      by (simp add: menu_state_of_def split: if_splits)
    with a have "closeMobileMenu p = p" by (simp add: close_when_closed)
    with c show "menu_dispatch p OverlayClick = p \<and> menu_dispatch p LinkClick = p \<and>
       menu_dispatch p (KeyDown ''Escape'') = p"
      by (simp add: menu_dispatch_def)
  qed
  from ham have ham1: "menu_state_of p = Closed \<longrightarrow> menu_state_of (menu_dispatch p HamburgerClick) = Opened"
    and ham2: "menu_state_of p = Opened \<longrightarrow> menu_state_of (menu_dispatch p HamburgerClick) = Closed"
    by simp_all
  from run init ham1 ham2 ov lk esc noop show ?thesis by blast
qed

theorem mobile_menu_two_state_witness:
  "attached page0 \<and> menu_state_of page0 = Closed \<and>
   menu_state_of (foldl menu_dispatch page0 [HamburgerClick]) = Opened \<and>
   menu_state_of (foldl menu_dispatch page0 [HamburgerClick, KeyDown ''Escape'', OverlayClick]) = Closed"
  using mobile_menu_two_state [of page0 "[HamburgerClick]"]
    mobile_menu_two_state [of page0 "[HamburgerClick, KeyDown ''Escape'', OverlayClick]"]
  by (simp add: page0_def attached_def AppState0_def menu_state_of_def)

lemma open_inv: "attached p \<Longrightarrow> menu_inv (openMobileMenu p)"
  by (auto simp: attached_def menu_inv_def openMobileMenu_def styled_open_def has_active_def
      split: option.splits)

lemma close_inv: "attached p \<Longrightarrow> menu_inv (closeMobileMenu p)"
  by (auto simp: attached_def menu_inv_def closeMobileMenu_def styled_open_def
      styled_closed_def has_active_def lacks_active_def split: option.splits)

lemma dispatch_inv: "menu_inv p \<Longrightarrow> menu_inv (menu_dispatch p e)"
  by (cases e) (auto simp: menu_dispatch_def toggleMobileMenu_def attached_def
      intro!: open_inv close_inv)

lemma run_inv: "menu_inv p \<Longrightarrow> menu_inv (foldl menu_dispatch p es)"
  by (induction es arbitrary: p) (simp_all add: dispatch_inv)

text \<open>
  Claim C10. After every event that runs a transition the open flag is set exactly when the
  links, the hamburger and the overlay, if there is one, carry the class active and the
  body's overflow is hidden; and when it is not set, none carries the class and the overflow
  is restored. Every event keeps this, along every sequence.
\<close>

theorem mobile_menu_styling_invariant:
  "(runs_transition p e \<longrightarrow> menu_inv (menu_dispatch p e)) \<and>
   (menu_inv p \<longrightarrow> menu_inv (menu_dispatch p e)) \<and>
   (menu_inv p \<longrightarrow> menu_inv (foldl menu_dispatch p es))"
proof -
  have "menu_inv (menu_dispatch p e)" if "runs_transition p e"
    using that
    by (cases e) (auto simp: runs_transition_def menu_dispatch_def toggleMobileMenu_def
        attached_def intro!: open_inv close_inv)
  then show ?thesis by (auto simp: dispatch_inv run_inv)
qed

theorem mobile_menu_styling_invariant_witness:
  "runs_transition page0 HamburgerClick \<and>
   menu_inv page0 \<and>
   menu_inv (menu_dispatch page0 HamburgerClick) \<and>
   mobileMenuOpen (menu_app (menu_dispatch page0 HamburgerClick)) \<and>
   bodyOverflow (menu_dispatch page0 HamburgerClick) = ''hidden'' \<and>
   hamburger (menu_dispatch page0 HamburgerClick) = Some {''active''} \<and>
   menu_inv (foldl menu_dispatch page0 [HamburgerClick, LinkClick]) \<and>
   bodyOverflow (foldl menu_dispatch page0 [HamburgerClick, LinkClick]) = ''''"
  using mobile_menu_styling_invariant [of page0 HamburgerClick "[HamburgerClick, LinkClick]"]
  by (simp add: page0_def runs_transition_def attached_def menu_inv_def styled_open_def
      styled_closed_def has_active_def lacks_active_def AppState0_def menu_dispatch_def
      toggleMobileMenu_def openMobileMenu_def closeMobileMenu_def)

subsection \<open>Copy buttons\<close>

lemma fold_run_callback:
  "fold run_callback ts bs i = fold fire_timer (filter (\<lambda>tm. fst (snd tm) = i) ts) (bs i)"
  by (induction ts arbitrary: bs) (auto simp: run_callback_def fire_timer_def)

lemma advance_button:
  "buttons (advance t p) i
     = fold fire_timer (sort_key fst (filter (\<lambda>tm. fst tm \<le> t) (pending_for i p))) (buttons p i)"
proof -
  have "filter (\<lambda>tm. fst (snd tm) = i) (sort_key fst (filter (\<lambda>tm. fst tm \<le> t) (timers p)))
      = sort_key fst (filter (\<lambda>tm. fst tm \<le> t) (pending_for i p))"
    by (simp add: filter_sort pending_for_def conj_commute)
  then show ?thesis by (simp add: advance_def fold_run_callback)
qed

lemma advance_button_sorted:
  assumes "sorted (map fst (timers p))"
  shows "buttons (advance t p) i
     = fold fire_timer (filter (\<lambda>tm. fst tm \<le> t) (pending_for i p)) (buttons p i)"
proof -
  have "sorted (map fst (filter (\<lambda>tm. fst tm \<le> t) (pending_for i p)))"
    unfolding pending_for_def using assms by (intro sorted_filter)
  then show ?thesis by (simp add: advance_button sort_key_id_if_sorted)
qed

lemma click_timers:
  assumes "codeText (buttons p i) = Some code"
  shows "timers (copy_click i r p) = timers p @ [(clock p + 2000, i, restore_of r (buttons p i))]"
  using assms by (cases r) (simp_all add: copy_click_def restore_of_def Let_def)

lemma click_clock: "clock (copy_click i r p) = clock p"
  by (cases r) (simp_all add: copy_click_def Let_def split: option.splits)

lemma click_other:
  assumes "j \<noteq> i"
  shows "buttons (copy_click i r p) j = buttons p j"
  using assms by (cases r) (simp_all add: copy_click_def Let_def split: option.splits)

lemma click_pending_other:
  assumes "j \<noteq> i"
  shows "pending_for j (copy_click i r p) = pending_for j p"
  using assms by (cases r) (simp_all add: copy_click_def pending_for_def Let_def split: option.splits)

lemma click_pending_same:
  assumes "codeText (buttons p i) = Some code"
  shows "pending_for i (copy_click i r p)
     = pending_for i p @ [(clock p + 2000, i, restore_of r (buttons p i))]"
  using assms by (simp add: pending_for_def click_timers)

lemma click_sorted:
  assumes "timers_ok p"
  shows "sorted (map fst (timers (copy_click i r p)))"
proof (cases "codeText (buttons p i)")
  case None
  then have "copy_click i r p = p" by (simp add: copy_click_def)
  with assms show ?thesis by (simp add: timers_ok_def)
next
  case (Some code)
  have "sorted (map fst (timers p) @ [clock p + 2000])"
    using assms by (auto simp: timers_ok_def sorted_append)
  then show ?thesis by (simp add: click_timers [OF Some])
qed

lemma click_button:
  assumes "codeText (buttons p i) = Some code"
  shows "buttons (copy_click i Written p) i
           = (buttons p i)\<lparr>textContent := ''Copied!'',
                classList := insert ''copied'' (classList (buttons p i))\<rparr>"
    and "buttons (copy_click i Refused p) i = (buttons p i)\<lparr>textContent := ''Failed''\<rparr>"
  using assms by (simp_all add: copy_click_def Let_def)

lemma fire_text:
  "textContent (fire cb b) = (case cb of RestoreOriginal t \<Rightarrow> t | RestoreCopy \<Rightarrow> ''Copy'')"
  by (cases cb) simp_all

lemma timers_ok_click:
  assumes "timers_ok p"
  shows "timers_ok (copy_click i r p)"
proof (cases "codeText (buttons p i)")
  case None
  then have "copy_click i r p = p" by (simp add: copy_click_def)
  with assms show ?thesis by simp
next
  case (Some code)
  have "\<forall>tm \<in> set (timers (copy_click i r p)). fst tm \<le> clock (copy_click i r p) + 2000"
    using assms by (auto simp: click_timers [OF Some] click_clock timers_ok_def)
  with click_sorted [OF assms] show ?thesis by (simp add: timers_ok_def)
qed

lemma timers_ok_advance:
  assumes "timers_ok p"
  shows "timers_ok (advance t p)"
proof -
  have "sorted (map fst (filter (\<lambda>tm. \<not> fst tm \<le> t) (timers p)))"
    using assms by (intro sorted_filter) (simp add: timers_ok_def)
  moreover have "\<forall>tm \<in> set (filter (\<lambda>tm. \<not> fst tm \<le> t) (timers p)).
      fst tm \<le> max t (clock p) + 2000"
    using assms by (auto simp: timers_ok_def)
  ultimately show ?thesis by (simp add: timers_ok_def advance_def)
qed

lemma timers_ok_step: "timers_ok p \<Longrightarrow> timers_ok (copy_step p e)"
  by (cases e) (simp_all add: timers_ok_click timers_ok_advance)

lemma timers_ok_run: "timers_ok p \<Longrightarrow> timers_ok (foldl copy_step p es)"
  by (induction es arbitrary: p) (simp_all add: timers_ok_step)

lemma timers_ok_reachable:
  assumes "timers p0 = []"
  shows "timers_ok (foldl copy_step p0 es)"
proof -
  have "timers_ok p0" using assms by (simp add: timers_ok_def)
  then show ?thesis by (rule timers_ok_run)
qed

text \<open>
  Claim C4, as stated, fails for a click made while an earlier restore of the button is
  pending. A failed click at 0 ms and a successful one at 1000 ms, which finds the label
  Failed: 1000 ms after it the label is Copy, set by the restore of the first click,
  and only 2000 ms after it the label it found.
\<close>

theorem copy_feedback_interrupted:
  "textContent (buttons (advance 1000 (copy_click 0 Refused copy0)) 0) = ''Failed'' \<and>
   codeText (buttons (advance 1000 (copy_click 0 Refused copy0)) 0)
     = Some ''npm install -g oh-my-codex'' \<and>
   clock mixed_clicks = 1000 \<and>
   textContent (buttons mixed_clicks 0) = ''Copied!'' \<and>
   textContent (buttons (advance 2000 mixed_clicks) 0) = ''Copy'' \<and>
   textContent (buttons (advance 3000 mixed_clicks) 0) = ''Failed''"
  by (simp add: mixed_clicks_def copy0_def copy_click_def advance_def run_callback_def Let_def)

text \<open>
  Claim C4, amended. A click that finds its code block: after a successful write the label is
  Copied! and the button is marked copied, and the restore the click schedules for 2000 ms
  later puts back the label the click found and clears the mark; after a failed write the
  label is Failed and the restore scheduled for 2000 ms later sets the label Copy, not the
  label found. When no earlier restore of the button is pending, these are the labels seen
  before and from 2000 ms on.
\<close>

theorem copy_feedback_sequence:
  assumes code: "codeText (buttons p i) = Some code"
  shows "textContent (buttons (copy_click i Written p) i) = ''Copied!'' \<and>
    ''copied'' \<in> classList (buttons (copy_click i Written p) i) \<and>
    timers (copy_click i Written p)
      = timers p @ [(clock p + 2000, i, RestoreOriginal (textContent (buttons p i)))] \<and>
    textContent (buttons (copy_click i Refused p) i) = ''Failed'' \<and>
    timers (copy_click i Refused p) = timers p @ [(clock p + 2000, i, RestoreCopy)] \<and>
    (pending_for i p = [] \<longrightarrow>
      (\<forall>t. t < clock p + 2000 \<longrightarrow>
         textContent (buttons (advance t (copy_click i Written p)) i) = ''Copied!'' \<and>
         ''copied'' \<in> classList (buttons (advance t (copy_click i Written p)) i) \<and>
         textContent (buttons (advance t (copy_click i Refused p)) i) = ''Failed'') \<and>
      (\<forall>t. clock p + 2000 \<le> t \<longrightarrow>
         textContent (buttons (advance t (copy_click i Written p)) i) = textContent (buttons p i) \<and>
         ''copied'' \<notin> classList (buttons (advance t (copy_click i Written p)) i) \<and>
         textContent (buttons (advance t (copy_click i Refused p)) i) = ''Copy''))"
proof -
  have now: "textContent (buttons (copy_click i Written p) i) = ''Copied!''"
    "''copied'' \<in> classList (buttons (copy_click i Written p) i)"
    "textContent (buttons (copy_click i Refused p) i) = ''Failed''"
    by (simp_all add: click_button [OF code])
  have tm: "timers (copy_click i Written p)
      = timers p @ [(clock p + 2000, i, RestoreOriginal (textContent (buttons p i)))]"
    "timers (copy_click i Refused p) = timers p @ [(clock p + 2000, i, RestoreCopy)]"
    by (simp_all add: click_timers [OF code] restore_of_def)
  have later: "(\<forall>t. t < clock p + 2000 \<longrightarrow>
         textContent (buttons (advance t (copy_click i Written p)) i) = ''Copied!'' \<and>
         ''copied'' \<in> classList (buttons (advance t (copy_click i Written p)) i) \<and>
         textContent (buttons (advance t (copy_click i Refused p)) i) = ''Failed'') \<and>
      (\<forall>t. clock p + 2000 \<le> t \<longrightarrow>
         textContent (buttons (advance t (copy_click i Written p)) i) = textContent (buttons p i) \<and>
         ''copied'' \<notin> classList (buttons (advance t (copy_click i Written p)) i) \<and>
         textContent (buttons (advance t (copy_click i Refused p)) i) = ''Copy'')"
    if alone: "pending_for i p = []"
  proof -
    have pend: "pending_for i (copy_click i r p) = [(clock p + 2000, i, restore_of r (buttons p i))]" for r
      by (simp add: click_pending_same [OF code] alone)
    have early: "buttons (advance t (copy_click i r p)) i = buttons (copy_click i r p) i"
      if "t < clock p + 2000" for t r
      using that by (simp add: advance_button pend)
    have late: "buttons (advance t (copy_click i r p)) i
        = fire (restore_of r (buttons p i)) (buttons (copy_click i r p) i)"
      if "clock p + 2000 \<le> t" for t r
      using that by (simp add: advance_button pend fire_timer_def)
    show ?thesis
      by (auto simp: early late now restore_of_def click_button [OF code])
  qed
  from now tm later show ?thesis by blast
qed

theorem copy_feedback_sequence_witness:
  "codeText (buttons copy0 0) = Some ''npm install -g oh-my-codex'' \<and>
   pending_for 0 copy0 = [] \<and>
   textContent (buttons copy0 0) = ''Copy code'' \<and>
   textContent (buttons (copy_click 0 Written copy0) 0) = ''Copied!'' \<and>
   ''copied'' \<in> classList (buttons (advance 1999 (copy_click 0 Written copy0)) 0) \<and>
   textContent (buttons (advance 1999 (copy_click 0 Written copy0)) 0) = ''Copied!'' \<and>
   textContent (buttons (advance 2000 (copy_click 0 Written copy0)) 0) = ''Copy code'' \<and>
   ''copied'' \<notin> classList (buttons (advance 2000 (copy_click 0 Written copy0)) 0) \<and>
   textContent (buttons (copy_click 0 Refused copy0) 0) = ''Failed'' \<and>
   textContent (buttons (advance 1999 (copy_click 0 Refused copy0)) 0) = ''Failed'' \<and>
   textContent (buttons (advance 2000 (copy_click 0 Refused copy0)) 0) = ''Copy'' \<and>
   textContent (buttons (advance 2000 (copy_click 0 Refused copy0)) 0)
     \<noteq> textContent (buttons copy0 0)"
proof -
  have c: "codeText (buttons copy0 0) = Some ''npm install -g oh-my-codex''"
    and a: "pending_for 0 copy0 = []"
    and l: "textContent (buttons copy0 0) = ''Copy code''"
    and k: "clock copy0 = 0"
    by (simp_all add: copy0_def pending_for_def)
  note th = copy_feedback_sequence [OF c]
  from th have w0: "textContent (buttons (copy_click 0 Written copy0) 0) = ''Copied!''"
    and r0: "textContent (buttons (copy_click 0 Refused copy0) 0) = ''Failed''"
    by blast+
  from th a have early: "\<forall>t. t < clock copy0 + 2000 \<longrightarrow>
         textContent (buttons (advance t (copy_click 0 Written copy0)) 0) = ''Copied!'' \<and>
         ''copied'' \<in> classList (buttons (advance t (copy_click 0 Written copy0)) 0) \<and>
         textContent (buttons (advance t (copy_click 0 Refused copy0)) 0) = ''Failed''"
    and late: "\<forall>t. clock copy0 + 2000 \<le> t \<longrightarrow>
         textContent (buttons (advance t (copy_click 0 Written copy0)) 0)
           = textContent (buttons copy0 0) \<and>
         ''copied'' \<notin> classList (buttons (advance t (copy_click 0 Written copy0)) 0) \<and>
         textContent (buttons (advance t (copy_click 0 Refused copy0)) 0) = ''Copy''"
    by blast+
  have "(1999::nat) < clock copy0 + 2000" "clock copy0 + 2000 \<le> (2000::nat)"
    by (simp_all add: k)
  with early late have
    e1: "textContent (buttons (advance 1999 (copy_click 0 Written copy0)) 0) = ''Copied!''"
    and e2: "''copied'' \<in> classList (buttons (advance 1999 (copy_click 0 Written copy0)) 0)"
    and e3: "textContent (buttons (advance 1999 (copy_click 0 Refused copy0)) 0) = ''Failed''"
    and l1: "textContent (buttons (advance 2000 (copy_click 0 Written copy0)) 0)
           = textContent (buttons copy0 0)"
    and l2: "''copied'' \<notin> classList (buttons (advance 2000 (copy_click 0 Written copy0)) 0)"
    and l3: "textContent (buttons (advance 2000 (copy_click 0 Refused copy0)) 0) = ''Copy''"
    by blast+
  have d: "textContent (buttons (advance 2000 (copy_click 0 Refused copy0)) 0)
     \<noteq> textContent (buttons copy0 0)"
    by (simp add: l3 l)
  from c a l w0 e2 e1 l1 l2 r0 e3 l3 d show ?thesis by (simp add: l)
qed

text \<open>
  Claim C5, as stated, fails: a second click does not restart the pending restore. After
  clicks at 0 ms and 500 ms both restores are pending, and at 2000 ms, 1500 ms after the
  last click, the first one has fired: the label is Copy code again and the mark is gone.
\<close>

theorem copy_restore_not_restarted:
  "textContent (buttons two_clicks 0) = ''Copied!'' \<and>
   timers two_clicks
     = [(2000, 0, RestoreOriginal ''Copy code''), (2500, 0, RestoreOriginal ''Copied!'')] \<and>
   textContent (buttons (advance 2000 two_clicks) 0) = ''Copy code'' \<and>
   ''copied'' \<notin> classList (buttons (advance 2000 two_clicks) 0) \<and>
   timers (advance 2000 two_clicks) = [(2500, 0, RestoreOriginal ''Copied!'')]"
  by (simp add: two_clicks_def copy0_def copy_click_def advance_def run_callback_def Let_def)

text \<open>
  Claim C5, amended. On every page the events lead to from one without timers, a click on a
  button with its code block keeps every pending restore and adds its own, due 2000 ms
  later; all of them fire, each at its own time and in the order of the clicks, so that the
  restore of the last click is the last to take effect; and a click on one button changes
  neither another button nor its pending restores, each button being changed by its own
  restores only.
\<close>

theorem copy_restores_accumulate:
  assumes start: "timers p0 = []" and run: "p = foldl copy_step p0 es"
    and code: "codeText (buttons p i) = Some code"
  shows "timers (copy_click i r p) = timers p @ [(clock p + 2000, i, restore_of r (buttons p i))] \<and>
    (\<forall>j. j \<noteq> i \<longrightarrow> buttons (copy_click i r p) j = buttons p j \<and>
       pending_for j (copy_click i r p) = pending_for j p) \<and>
    (\<forall>t j. buttons (advance t (copy_click i r p)) j
       = fold fire_timer (filter (\<lambda>tm. fst tm \<le> t) (pending_for j (copy_click i r p)))
           (buttons (copy_click i r p) j)) \<and>
    (\<forall>t. clock p + 2000 \<le> t \<longrightarrow>
       textContent (buttons (advance t (copy_click i r p)) i)
         = (case r of Written \<Rightarrow> textContent (buttons p i) | Refused \<Rightarrow> ''Copy''))"
proof -
  have ok: "timers_ok p"
    unfolding run using start by (rule timers_ok_reachable)
  have a: "timers (copy_click i r p) = timers p @ [(clock p + 2000, i, restore_of r (buttons p i))]"
    by (rule click_timers [OF code])
  have b: "\<forall>j. j \<noteq> i \<longrightarrow> buttons (copy_click i r p) j = buttons p j \<and>
       pending_for j (copy_click i r p) = pending_for j p"
    by (simp add: click_other click_pending_other)
  have srt: "sorted (map fst (timers (copy_click i r p)))"
    using ok by (rule click_sorted)
  have c: "\<forall>t j. buttons (advance t (copy_click i r p)) j
       = fold fire_timer (filter (\<lambda>tm. fst tm \<le> t) (pending_for j (copy_click i r p)))
           (buttons (copy_click i r p) j)"
    using srt by (simp add: advance_button_sorted)
  have d: "textContent (buttons (advance t (copy_click i r p)) i)
         = (case r of Written \<Rightarrow> textContent (buttons p i) | Refused \<Rightarrow> ''Copy'')"
    if "clock p + 2000 \<le> t" for t
  proof -
    have "\<forall>tm \<in> set (pending_for i p). fst tm \<le> t"
      using ok that by (auto simp: timers_ok_def pending_for_def)
    then have "filter (\<lambda>tm. fst tm \<le> t) (pending_for i p) = pending_for i p"
      by (simp add: filter_id_conv)
    then have "filter (\<lambda>tm. fst tm \<le> t) (pending_for i (copy_click i r p))
        = pending_for i p @ [(clock p + 2000, i, restore_of r (buttons p i))]"
      using that by (simp add: click_pending_same [OF code])
    then have "buttons (advance t (copy_click i r p)) i
        = fire (restore_of r (buttons p i))
            (fold fire_timer (pending_for i p) (buttons (copy_click i r p) i))"
      using c by (simp add: fire_timer_def)
    then show ?thesis by (cases r) (simp_all add: fire_text restore_of_def)
  qed
  from a b c d show ?thesis by blast
qed

lemma one_pending_page:
  "one_pending = \<lparr>clock = 500,
     buttons = (buttons copy0)(0 := \<lparr>textContent = ''Copied!'', classList = {''copied''},
                 codeText = Some ''npm install -g oh-my-codex''\<rparr>),
     timers = [(2000, 0, RestoreOriginal ''Copy code'')]\<rparr>"
  by (simp add: one_pending_def copy0_def copy_click_def advance_def Let_def)

theorem copy_restores_accumulate_witness:
  "timers copy0 = [] \<and>
   codeText (buttons one_pending 0) = Some ''npm install -g oh-my-codex'' \<and>
   pending_for 0 one_pending = [(2000, 0, RestoreOriginal ''Copy code'')] \<and>
   clock one_pending = 500 \<and>
   timers (copy_click 0 Written one_pending)
     = [(2000, 0, RestoreOriginal ''Copy code''), (2500, 0, RestoreOriginal ''Copied!'')] \<and>
   buttons (copy_click 0 Written one_pending) 1 = buttons one_pending 1 \<and>
   textContent (buttons (advance 2000 (copy_click 0 Written one_pending)) 0) = ''Copy code'' \<and>
   textContent (buttons (advance 2500 (copy_click 0 Written one_pending)) 0) = ''Copied!'' \<and>
   textContent (buttons (advance 2500 (copy_click 0 Refused one_pending)) 0) = ''Copy''"
proof -
  have s: "timers copy0 = []"
    by (simp add: copy0_def)
  have r: "one_pending = foldl copy_step copy0 [Click 0 Written, Tick 500]"
    by (simp add: one_pending_def)
  have c: "codeText (buttons one_pending 0) = Some ''npm install -g oh-my-codex''"
    and pd: "pending_for 0 one_pending = [(2000, 0, RestoreOriginal ''Copy code'')]"
    and k: "clock one_pending = 500"
    and tx: "textContent (buttons one_pending 0) = ''Copied!''"
    by (simp_all add: one_pending_page pending_for_def)
  note w = copy_restores_accumulate [OF s r c, of Written]
  note f = copy_restores_accumulate [OF s r c, of Refused]
  from w have "timers (copy_click 0 Written one_pending)
      = timers one_pending @ [(clock one_pending + 2000, 0, restore_of Written (buttons one_pending 0))]"
    by (rule conjunct1)
  then have t: "timers (copy_click 0 Written one_pending)
     = [(2000, 0, RestoreOriginal ''Copy code''), (2500, 0, RestoreOriginal ''Copied!'')]"
    by (simp add: one_pending_page restore_of_def)
  from w have "(1::nat) \<noteq> 0 \<longrightarrow> buttons (copy_click 0 Written one_pending) 1 = buttons one_pending 1"
    by blast
  then have b: "buttons (copy_click 0 Written one_pending) 1 = buttons one_pending 1"
    by simp
  from w have "buttons (advance 2000 (copy_click 0 Written one_pending)) 0
       = fold fire_timer (filter (\<lambda>tm. fst tm \<le> 2000) (pending_for 0 (copy_click 0 Written one_pending)))
           (buttons (copy_click 0 Written one_pending) 0)"
    by blast
  then have m: "textContent (buttons (advance 2000 (copy_click 0 Written one_pending)) 0) = ''Copy code''"
    by (simp add: click_pending_same [OF c] pd k fire_timer_def restore_of_def)
  from w have "clock one_pending + 2000 \<le> 2500 \<longrightarrow>
      textContent (buttons (advance 2500 (copy_click 0 Written one_pending)) 0)
        = (case Written of Written \<Rightarrow> textContent (buttons one_pending 0) | Refused \<Rightarrow> ''Copy'')"
    by blast
  then have l: "textContent (buttons (advance 2500 (copy_click 0 Written one_pending)) 0) = ''Copied!''"
    by (simp add: k tx)
  from f have "clock one_pending + 2000 \<le> 2500 \<longrightarrow>
      textContent (buttons (advance 2500 (copy_click 0 Refused one_pending)) 0)
        = (case Refused of Written \<Rightarrow> textContent (buttons one_pending 0) | Refused \<Rightarrow> ''Copy'')"
    by blast
  then have l': "textContent (buttons (advance 2500 (copy_click 0 Refused one_pending)) 0) = ''Copy''"
    by (simp add: k)
  from s c pd k t b m l l' show ?thesis by blast
qed

subsection \<open>Same-page anchors\<close>

text \<open>
  Claim C6, as stated, fails: the listener does nothing on a link whose target is
  missing, and so it does not suppress the default action either; the browser follows the
  link and the visible fragment becomes the link's.
\<close>

theorem missing_target_fragment_changes:
  "anchor_click True ''#missing-id'' Missing scroll0
     = \<lparr>page_after = scroll0, defaultPrevented = False, uncaught = False\<rparr> \<and>
   fragment scroll0 = '''' \<and>
   fragment (click_link True ''#missing-id'' Missing None scroll0) = ''#missing-id''"
  by (simp add: click_link_def anchor_click_def follow_link_def scroll0_def)

text \<open>
  Claim C6, amended. On a link whose fragment names no existing element the listener performs
  no action: it requests no scroll, pushes no history entry and does not call
  \<open>preventDefault\<close>. The click is then the browser's default one: the visible fragment
  becomes the link's, and the scroll offset stays where no part of the document is indicated.
\<close>

theorem missing_target_handler_idle:
  "anchor_click hasPushState targetId Missing p
     = \<lparr>page_after = p, defaultPrevented = False, uncaught = False\<rparr> \<and>
   click_link hasPushState targetId Missing indicated p = follow_link targetId indicated p \<and>
   fragment (click_link hasPushState targetId Missing indicated p) = targetId \<and>
   scrollY (click_link hasPushState targetId Missing None p) = scrollY p \<and>
   smoothScrollTo (click_link hasPushState targetId Missing indicated p) = smoothScrollTo p"
  by (simp add: click_link_def anchor_click_def follow_link_def)

theorem missing_target_handler_idle_witness:
  "page_after (anchor_click True ''#missing-id'' Missing scroll0) = scroll0 \<and>
   \<not> defaultPrevented (anchor_click True ''#missing-id'' Missing scroll0) \<and>
   scrollY (click_link True ''#missing-id'' Missing None scroll0) = 300 \<and>
   fragment (click_link True ''#missing-id'' Missing None scroll0) = ''#missing-id''"
  using missing_target_handler_idle [of True "''#missing-id''" scroll0 None]
  by (simp add: scroll0_def follow_link_def)

text \<open>
  Claim C7, as stated, fails: the fragment is updated with \<open>history.pushState\<close>, which
  adds an entry to the session history.
\<close>

theorem found_target_pushes_entry:
  "entries scroll0 = [''''] \<and>
   entries (page_after (anchor_click True ''#install'' (Found 500) scroll0)) = ['''', ''#install''] \<and>
   entries (click_link True ''#install'' (Found 500) (Some 800) scroll0) = ['''', ''#install'']"
  by (simp add: click_link_def anchor_click_def pushState_def scroll0_def Let_def)

lemma log2_less: "m < 2 ^ Suc j \<Longrightarrow> log2 m \<le> j"
proof (induction j arbitrary: m)
  case 0
  then show ?case by (simp add: log2.simps)
next
  case (Suc j)
  then have "m div 2 < 2 ^ Suc j" by auto
  then have "log2 (m div 2) \<le> j" by (rule Suc.IH)
  then show ?case by (subst log2.simps) simp
qed

lemma fl_quot_nat:
  assumes "n < 2 ^ 53"
  shows "fl_quot n 1 = of_nat n"
proof (cases "n = 0")
  case True
  then show ?thesis by (simp add: fl_quot_def)
next
  case False
  have "n < 2 ^ Suc 52" using assms by simp
  then have e: "log2 n \<le> 52" by (rule log2_less)
  have "rne (n * 2 ^ (52 - log2 n)) 1 = n * 2 ^ (52 - log2 n)"
    by (simp add: rne_def Let_def)
  then have "fl_div n 1 = of_nat n"
    using e by (simp add: fl_div_def Let_def)
  with False show ?thesis by (simp add: fl_quot_def)
qed

lemma fl_of_int:
  assumes "\<bar>z\<bar> < 2 ^ 53"
  shows "fl (of_int z) = of_int z"
proof (cases "z < 0")
  case True
  have "nat (- z) < 2 ^ 53" using assms True by (simp add: nat_less_iff)
  then have "fl_quot (nat (- z)) 1 = of_nat (nat (- z))" by (rule fl_quot_nat)
  with True show ?thesis by (simp add: fl_def)
next
  case False
  have "nat z < 2 ^ 53" using assms False by (simp add: nat_less_iff)
  then have "fl_quot (nat z) 1 = of_nat (nat z)" by (rule fl_quot_nat)
  with False show ?thesis by (simp add: fl_def)
qed

lemma whole_offsets:
  assumes "\<bar>a + b\<bar> < 2 ^ 53" and "\<bar>a + b - 80\<bar> < 2 ^ 53"
  shows "dsub (dadd (of_int a) (of_int b)) 80 = of_int (a + b - 80)"
proof -
  have "dadd (of_int a) (of_int b) = fl (of_int (a + b))" by (simp add: dadd_def)
  also have "\<dots> = of_int (a + b)" using assms(1) by (rule fl_of_int)
  finally have "dsub (dadd (of_int a) (of_int b)) 80 = fl (of_int (a + b - 80))"
    by (simp add: dsub_def)
  also have "\<dots> = of_int (a + b - 80)" using assms(2) by (rule fl_of_int)
  finally show ?thesis .
qed

lemma far_offset: "dsub (dadd 10000000000000000 1) 80 = 9999999999999920"
proof -
  have "fl 10000000000000001 = 10000000000000000"
    by (simp add: fl_def fl_quot_def fl_div_def rne_def Let_def log2.simps)
  moreover have "fl 9999999999999920 = 9999999999999920"
    by (simp add: fl_def fl_quot_def fl_div_def rne_def Let_def log2.simps)
  ultimately show ?thesis by (simp add: dadd_def dsub_def)
qed

text \<open>
  Claim C7, amended. On a link other than \<open>#\<close> whose target is found, the listener suppresses the
  default jump, requests a smooth scroll to the target's top plus the current offset minus
  80, each of the two operations rounded to a double (nothing is rounded when the offsets
  are whole numbers below 2 ^ 53), and then, where \<open>history.pushState\<close> exists, makes the
  link's fragment the visible one by pushing one history entry; the push changes neither
  the scroll offset nor the scroll requested, and the browser's own navigation does not run.
\<close>

theorem found_target_scroll_then_push:
  assumes "targetId \<noteq> ''#''"
  shows "defaultPrevented (anchor_click hasPushState targetId (Found elementPosition) p) \<and>
    \<not> uncaught (anchor_click hasPushState targetId (Found elementPosition) p) \<and>
    click_link hasPushState targetId (Found elementPosition) indicated p
      = page_after (anchor_click hasPushState targetId (Found elementPosition) p) \<and>
    smoothScrollTo (page_after (anchor_click hasPushState targetId (Found elementPosition) p))
      = Some (dsub (dadd elementPosition (scrollY p)) 80) \<and>
    (\<forall>a b. elementPosition = of_int a \<and> scrollY p = of_int b \<and>
       \<bar>a + b\<bar> < 2 ^ 53 \<and> \<bar>a + b - 80\<bar> < 2 ^ 53 \<longrightarrow>
       smoothScrollTo (page_after (anchor_click hasPushState targetId (Found elementPosition) p))
         = Some (of_int (a + b - 80))) \<and>
    scrollY (page_after (anchor_click hasPushState targetId (Found elementPosition) p)) = scrollY p \<and>
    page_after (anchor_click hasPushState targetId (Found elementPosition) p)
      = (if hasPushState
         then pushState targetId (p\<lparr>smoothScrollTo := Some (dsub (dadd elementPosition (scrollY p)) 80)\<rparr>)
         else p\<lparr>smoothScrollTo := Some (dsub (dadd elementPosition (scrollY p)) 80)\<rparr>) \<and>
    fragment (pushState targetId p) = targetId \<and>
    entries (pushState targetId p) = entries p @ [targetId] \<and>
    scrollY (pushState targetId p) = scrollY p \<and>
    smoothScrollTo (pushState targetId p) = smoothScrollTo p"
proof -
  have t: "smoothScrollTo (page_after (anchor_click hasPushState targetId (Found elementPosition) p))
      = Some (dsub (dadd elementPosition (scrollY p)) 80)"
    using assms by (simp add: anchor_click_def pushState_def Let_def)
  have w: "\<forall>a b. elementPosition = of_int a \<and> scrollY p = of_int b \<and>
       \<bar>a + b\<bar> < 2 ^ 53 \<and> \<bar>a + b - 80\<bar> < 2 ^ 53 \<longrightarrow>
       smoothScrollTo (page_after (anchor_click hasPushState targetId (Found elementPosition) p))
         = Some (of_int (a + b - 80))"
    unfolding t by (auto simp: whole_offsets)
  have r: "defaultPrevented (anchor_click hasPushState targetId (Found elementPosition) p) \<and>
    \<not> uncaught (anchor_click hasPushState targetId (Found elementPosition) p) \<and>
    click_link hasPushState targetId (Found elementPosition) indicated p
      = page_after (anchor_click hasPushState targetId (Found elementPosition) p) \<and>
    scrollY (page_after (anchor_click hasPushState targetId (Found elementPosition) p)) = scrollY p \<and>
    page_after (anchor_click hasPushState targetId (Found elementPosition) p)
      = (if hasPushState
         then pushState targetId (p\<lparr>smoothScrollTo := Some (dsub (dadd elementPosition (scrollY p)) 80)\<rparr>)
         else p\<lparr>smoothScrollTo := Some (dsub (dadd elementPosition (scrollY p)) 80)\<rparr>) \<and>
    fragment (pushState targetId p) = targetId \<and>
    entries (pushState targetId p) = entries p @ [targetId] \<and>
    scrollY (pushState targetId p) = scrollY p \<and>
    smoothScrollTo (pushState targetId p) = smoothScrollTo p"
    using assms by (simp add: click_link_def anchor_click_def pushState_def Let_def)
  from t w r show ?thesis by blast
qed

theorem found_target_scroll_then_push_witness:
  "''#install'' \<noteq> ''#'' \<and>
   defaultPrevented (anchor_click True ''#install'' (Found 500) scroll0) \<and>
   smoothScrollTo (page_after (anchor_click True ''#install'' (Found 500) scroll0)) = Some 720 \<and>
   scrollY (page_after (anchor_click True ''#install'' (Found 500) scroll0)) = 300 \<and>
   fragment (page_after (anchor_click True ''#install'' (Found 500) scroll0)) = ''#install'' \<and>
   entries (page_after (anchor_click True ''#install'' (Found 500) scroll0)) = ['''', ''#install''] \<and>
   smoothScrollTo (page_after (anchor_click True ''#install'' (Found 10000000000000000) scroll1))
     = Some 9999999999999920"
proof -
  have n: "''#install'' \<noteq> ''#''" by simp
  note th = found_target_scroll_then_push [OF n, of True 500 scroll0 None]
  note far = found_target_scroll_then_push [OF n, of True 10000000000000000 scroll1 None]
  from th have d: "defaultPrevented (anchor_click True ''#install'' (Found 500) scroll0)"
    by blast
  from th have "(500::rat) = of_int 500 \<and> scrollY scroll0 = of_int 300 \<and>
       \<bar>(500::int) + 300\<bar> < 2 ^ 53 \<and> \<bar>(500::int) + 300 - 80\<bar> < 2 ^ 53 \<longrightarrow>
       smoothScrollTo (page_after (anchor_click True ''#install'' (Found 500) scroll0))
         = Some (of_int (500 + 300 - 80))"
    by blast
  then have t: "smoothScrollTo (page_after (anchor_click True ''#install'' (Found 500) scroll0)) = Some 720"
    by (simp add: scroll0_def)
  from th have "scrollY (page_after (anchor_click True ''#install'' (Found 500) scroll0)) = scrollY scroll0"
    by blast
  then have y: "scrollY (page_after (anchor_click True ''#install'' (Found 500) scroll0)) = 300"
    by (simp add: scroll0_def)
  from th have pg: "page_after (anchor_click True ''#install'' (Found 500) scroll0)
      = (if True
         then pushState ''#install'' (scroll0\<lparr>smoothScrollTo := Some (dsub (dadd 500 (scrollY scroll0)) 80)\<rparr>)
         else scroll0\<lparr>smoothScrollTo := Some (dsub (dadd 500 (scrollY scroll0)) 80)\<rparr>)"
    by blast
  have f: "fragment (page_after (anchor_click True ''#install'' (Found 500) scroll0)) = ''#install''"
    and e: "entries (page_after (anchor_click True ''#install'' (Found 500) scroll0)) = ['''', ''#install'']"
    unfolding pg by (simp_all add: pushState_def scroll0_def)
  from far have "smoothScrollTo (page_after (anchor_click True ''#install'' (Found 10000000000000000) scroll1))
      = Some (dsub (dadd 10000000000000000 (scrollY scroll1)) 80)"
    by blast
  then have r: "smoothScrollTo (page_after (anchor_click True ''#install'' (Found 10000000000000000) scroll1))
     = Some 9999999999999920"
    by (simp add: scroll1_def far_offset)
  from n d t y f e r show ?thesis by blast
qed

subsection \<open>Statistics fetchers\<close>

lemma updateGitHubUI_frame:
  "requests (page_of (updateGitHubUI s p)) = requests p \<and>
   sessionStorage (page_of (updateGitHubUI s p)) = sessionStorage p \<and>
   console (page_of (updateGitHubUI s p)) = console p \<and>
   downloadsEl (page_of (updateGitHubUI s p)) = downloadsEl p \<and>
   (starsEl (page_of (updateGitHubUI s p)) = None) = (starsEl p = None) \<and>
   (forksEl (page_of (updateGitHubUI s p)) = None) = (forksEl p = None)"
  by (cases "starsEl p"; cases "forksEl p"; cases "badge_value s ''stars''";
      cases "badge_value s ''forks''"; simp add: updateGitHubUI_def)

lemma updateNpmUI_frame:
  "requests (page_of (updateNpmUI s p)) = requests p \<and>
   sessionStorage (page_of (updateNpmUI s p)) = sessionStorage p \<and>
   console (page_of (updateNpmUI s p)) = console p \<and>
   starsEl (page_of (updateNpmUI s p)) = starsEl p \<and>
   forksEl (page_of (updateNpmUI s p)) = forksEl p \<and>
   (downloadsEl (page_of (updateNpmUI s p)) = None) = (downloadsEl p = None)"
  by (cases "downloadsEl p"; cases "badge_text s"; simp add: updateNpmUI_def)

lemma updateGitHubUI_nulls:
  "updateGitHubUI (Obj [(''stars'', Null), (''forks'', Null)]) p
     = Normal (p\<lparr>starsEl := map_option (\<lambda>_. placeholder) (starsEl p),
                 forksEl := map_option (\<lambda>_. placeholder) (forksEl p)\<rparr>)"
  by (cases "starsEl p"; cases "forksEl p") (simp_all add: updateGitHubUI_def badge_value_def badge_text_def)

lemma updateNpmUI_null:
  "updateNpmUI Null p = Normal (p\<lparr>downloadsEl := map_option (\<lambda>_. placeholder) (downloadsEl p)\<rparr>)"
  by (cases "downloadsEl p") (simp_all add: updateNpmUI_def badge_text_def)

lemma github_refresh_requests:
  "requests (page_of (github_refresh ev p)) = requests p @ [github_url]"
  by (simp add: github_refresh_def Let_def updateGitHubUI_frame
      split: http.splits option.splits sum.splits)

lemma npm_refresh_requests:
  "requests (page_of (npm_refresh ev p)) = requests p @ [npm_url]"
  by (simp add: npm_refresh_def Let_def updateNpmUI_frame
      split: http.splits option.splits sum.splits)

lemma github_refresh_elements:
  "(starsEl (page_of (github_refresh ev p)) = None) = (starsEl p = None) \<and>
   (forksEl (page_of (github_refresh ev p)) = None) = (forksEl p = None) \<and>
   console (page_of (github_refresh ev p)) = console p"
  by (simp add: github_refresh_def Let_def updateGitHubUI_frame
      split: http.splits option.splits sum.splits)

lemma npm_refresh_elements:
  "(downloadsEl (page_of (npm_refresh ev p)) = None) = (downloadsEl p = None) \<and>
   console (page_of (npm_refresh ev p)) = console p"
  by (simp add: npm_refresh_def Let_def updateNpmUI_frame
      split: http.splits option.splits sum.splits)

lemma github_refresh_failure:
  assumes "pre_write_failure (reply ev)"
  shows "\<not> is_Normal (github_refresh ev p) \<and>
    sessionStorage (page_of (github_refresh ev p)) = sessionStorage p"
  using assms
  by (auto simp: pre_write_failure_def github_refresh_def Let_def split: http.splits)

lemma npm_refresh_failure:
  assumes "pre_write_failure (reply ev)"
  shows "\<not> is_Normal (npm_refresh ev p) \<and>
    sessionStorage (page_of (npm_refresh ev p)) = sessionStorage p"
  using assms
  by (auto simp: pre_write_failure_def npm_refresh_def Let_def split: http.splits)

text \<open>The try block either renders the cache, or refreshes, or fails where it stands.\<close>

lemma github_try_cases:
  "(\<exists>d. github_try ev p = updateGitHubUI d p) \<or> github_try ev p = github_refresh ev p \<or>
   (\<exists>e. github_try ev p = Raised e p)"
  by (auto simp: github_try_def split: option.splits stored.splits sum.splits)

lemma npm_try_cases:
  "(\<exists>d. npm_try ev p = updateNpmUI d p) \<or> npm_try ev p = npm_refresh ev p \<or>
   (\<exists>e. npm_try ev p = Raised e p)"
  by (auto simp: npm_try_def split: option.splits stored.splits sum.splits)

lemma github_try_elements:
  "(starsEl (page_of (github_try ev p)) = None) = (starsEl p = None) \<and>
   (forksEl (page_of (github_try ev p)) = None) = (forksEl p = None) \<and>
   console (page_of (github_try ev p)) = console p"
  using github_try_cases [of ev p]
  by (auto simp: updateGitHubUI_frame github_refresh_elements)

lemma npm_try_elements:
  "(downloadsEl (page_of (npm_try ev p)) = None) = (downloadsEl p = None) \<and>
   console (page_of (npm_try ev p)) = console p"
  using npm_try_cases [of ev p]
  by (auto simp: updateNpmUI_frame npm_refresh_elements)

lemma fetchGitHubStats_page:
  "fetchGitHubStats ev p =
     (case github_try ev p of
        Normal q \<Rightarrow> Normal q
      | Raised err q \<Rightarrow>
          Normal (q\<lparr>console := console q @ [(''[OMX] Failed to fetch GitHub stats:'', err)],
                    starsEl := map_option (\<lambda>_. placeholder) (starsEl q),
                    forksEl := map_option (\<lambda>_. placeholder) (forksEl q)\<rparr>))"
  by (simp add: fetchGitHubStats_def updateGitHubUI_nulls split: completion.splits)

lemma fetchNpmDownloads_page:
  "fetchNpmDownloads ev p =
     (case npm_try ev p of
        Normal q \<Rightarrow> Normal q
      | Raised err q \<Rightarrow>
          Normal (q\<lparr>console := console q @ [(''[OMX] Failed to fetch npm downloads:'', err)],
                    downloadsEl := map_option (\<lambda>_. placeholder) (downloadsEl q)\<rparr>))"
  by (simp add: fetchNpmDownloads_def updateNpmUI_null split: completion.splits)

lemma fetch_keeps:
  "requests (page_of (fetchGitHubStats ev p)) = requests (page_of (github_try ev p)) \<and>
   sessionStorage (page_of (fetchGitHubStats ev p)) = sessionStorage (page_of (github_try ev p)) \<and>
   requests (page_of (fetchNpmDownloads ev p)) = requests (page_of (npm_try ev p)) \<and>
   sessionStorage (page_of (fetchNpmDownloads ev p)) = sessionStorage (page_of (npm_try ev p))"
  by (simp add: fetchGitHubStats_page fetchNpmDownloads_page split: completion.splits)

lemma entry_ageD:
  assumes "entry_age now c = Some (d, age)"
  shows "\<exists>parsed ts. c = Some (Json parsed) \<and> get_prop parsed ''data'' = Inr d \<and>
    get_prop parsed ''timestamp'' = Inr (Num ts) \<and> age = int now - int ts"
proof (cases c)
  case None
  with assms show ?thesis by simp
next
  case (Some st)
  show ?thesis
  proof (cases st)
    case (Json parsed)
    with assms Some show ?thesis
      by (auto split: sum.splits jsval.splits)
  qed (use assms Some in simp_all)
qed

lemma github_hit:
  assumes "entry_age (now_check ev) (sessionStorage p github_key) = Some (d, age)"
    and "age < 5 * 60 * 1000"
  shows "github_try ev p = updateGitHubUI d p"
  using entry_ageD [OF assms(1)] assms(2) by (auto simp: github_try_def cacheTTL_def)

lemma github_miss:
  assumes "sessionStorage p github_key = None \<or>
      (entry_age (now_check ev) (sessionStorage p github_key) = Some (d, age) \<and>
       5 * 60 * 1000 \<le> age)"
  shows "github_try ev p = github_refresh ev p"
proof (cases "sessionStorage p github_key = None")
  case True
  then show ?thesis by (simp add: github_try_def)
next
  case False
  with assms have "entry_age (now_check ev) (sessionStorage p github_key) = Some (d, age)"
    and "5 * 60 * 1000 \<le> age" by simp_all
  then show ?thesis
    using entry_ageD [of "now_check ev" "sessionStorage p github_key" d age]
    by (auto simp: github_try_def cacheTTL_def)
qed

lemma npm_hit:
  assumes "entry_age (now_check ev) (sessionStorage p npm_key) = Some (d, age)"
    and "age < 5 * 60 * 1000"
  shows "npm_try ev p = updateNpmUI d p"
  using entry_ageD [OF assms(1)] assms(2) by (auto simp: npm_try_def cacheTTL_def)

lemma npm_miss:
  assumes "sessionStorage p npm_key = None \<or>
      (entry_age (now_check ev) (sessionStorage p npm_key) = Some (d, age) \<and>
       5 * 60 * 1000 \<le> age)"
  shows "npm_try ev p = npm_refresh ev p"
proof (cases "sessionStorage p npm_key = None")
  case True
  then show ?thesis by (simp add: npm_try_def)
next
  case False
  with assms have "entry_age (now_check ev) (sessionStorage p npm_key) = Some (d, age)"
    and "5 * 60 * 1000 \<le> age" by simp_all
  then show ?thesis
    using entry_ageD [of "now_check ev" "sessionStorage p npm_key" d age]
    by (auto simp: npm_try_def cacheTTL_def)
qed

text \<open>What the renderers leave, by what the fields of the payload give.\<close>

lemma updateGitHubUI_shows:
  assumes "starsEl p = None \<or> badge_value d ''stars'' = Inr a"
    and "forksEl p = None \<or> badge_value d ''forks'' = Inr b"
  shows "updateGitHubUI d p = Normal (github_shows a b p)"
  using assms
  by (cases p; cases "starsEl p"; cases "forksEl p")
     (auto simp: updateGitHubUI_def github_shows_def)

lemma updateGitHubUI_raises_stars:
  assumes "starsEl p \<noteq> None" and "badge_value d ''stars'' = Inl e"
  shows "updateGitHubUI d p = Raised e p"
  using assms by (auto simp: updateGitHubUI_def)

lemma updateGitHubUI_raises_forks:
  assumes "starsEl p = None \<or> badge_value d ''stars'' = Inr a"
    and "forksEl p \<noteq> None" and "badge_value d ''forks'' = Inl e"
  shows "updateGitHubUI d p = Raised e (p\<lparr>starsEl := map_option (\<lambda>_. a) (starsEl p)\<rparr>)"
  using assms
  by (cases p; cases "starsEl p") (auto simp: updateGitHubUI_def)

lemma updateNpmUI_shows:
  assumes "downloadsEl p = None \<or> badge_text d = Inr a"
  shows "updateNpmUI d p = Normal (npm_shows a p)"
  using assms
  by (cases p; cases "downloadsEl p") (auto simp: updateNpmUI_def npm_shows_def)

lemma updateNpmUI_raises:
  assumes "downloadsEl p \<noteq> None" and "badge_text d = Inl e"
  shows "updateNpmUI d p = Raised e p"
  using assms by (auto simp: updateNpmUI_def)

lemma github_caught:
  assumes "github_try ev p = Raised e q"
    and "starsEl q = starsEl p \<or> (\<exists>a. q = p\<lparr>starsEl := map_option (\<lambda>_. a) (starsEl p)\<rparr>)"
    and "forksEl q = forksEl p" and "console q = console p"
    and "q\<lparr>starsEl := starsEl p\<rparr> = p"
  shows "fetchGitHubStats ev p
    = Normal (github_shows placeholder placeholder
        (logged ''[OMX] Failed to fetch GitHub stats:'' e p))"
proof -
  have "map_option (\<lambda>_. placeholder) (starsEl q) = map_option (\<lambda>_. placeholder) (starsEl p)"
    using assms(2) by (auto simp: option.map_comp comp_def)
  moreover have "q\<lparr>console := console p @ [(''[OMX] Failed to fetch GitHub stats:'', e)],
        starsEl := map_option (\<lambda>_. placeholder) (starsEl p),
        forksEl := map_option (\<lambda>_. placeholder) (forksEl p)\<rparr>
      = p\<lparr>console := console p @ [(''[OMX] Failed to fetch GitHub stats:'', e)],
        starsEl := map_option (\<lambda>_. placeholder) (starsEl p),
        forksEl := map_option (\<lambda>_. placeholder) (forksEl p)\<rparr>"
    using assms(5) by (cases p; cases q) simp
  ultimately show ?thesis
    by (simp add: fetchGitHubStats_page assms(1,3,4) github_shows_def logged_def)
qed

lemma badge_pins:
  "(get_prop d k = Inr (Num n) \<longrightarrow> badge_value d k = formatNumber (Num n)) \<and>
   (get_prop d k = Inr Null \<longrightarrow> badge_value d k = Inr placeholder) \<and>
   (get_prop d k = Inr Undefined \<longrightarrow> badge_value d k = Inl TypeError) \<and>
   badge_text (Num n) = formatNumber (Num n) \<and>
   badge_text Null = Inr placeholder \<and>
   badge_text Undefined = Inl TypeError"
  by (simp add: badge_value_def badge_text_def)

lemma github_hit_outcome:
  assumes hit: "entry_age (now_check ev) (sessionStorage p github_key) = Some (d, age)"
    "age < 5 * 60 * 1000"
  shows "requests (page_of (fetchGitHubStats ev p)) = requests p \<and>
    sessionStorage (page_of (fetchGitHubStats ev p)) = sessionStorage p \<and>
    ((starsEl p = None \<or> badge_value d ''stars'' = Inr a) \<and>
     (forksEl p = None \<or> badge_value d ''forks'' = Inr b) \<longrightarrow>
       fetchGitHubStats ev p = Normal (github_shows a b p)) \<and>
    (starsEl p \<noteq> None \<and> badge_value d ''stars'' = Inl e \<longrightarrow>
       fetchGitHubStats ev p = Normal (github_shows placeholder placeholder
         (logged ''[OMX] Failed to fetch GitHub stats:'' e p))) \<and>
    ((starsEl p = None \<or> badge_value d ''stars'' = Inr a) \<and>
     forksEl p \<noteq> None \<and> badge_value d ''forks'' = Inl e \<longrightarrow>
       fetchGitHubStats ev p = Normal (github_shows placeholder placeholder
         (logged ''[OMX] Failed to fetch GitHub stats:'' e p)))"
proof -
  have t: "github_try ev p = updateGitHubUI d p" using hit by (rule github_hit)
  have frame: "requests (page_of (fetchGitHubStats ev p)) = requests p"
    "sessionStorage (page_of (fetchGitHubStats ev p)) = sessionStorage p"
    by (simp_all add: fetch_keeps t updateGitHubUI_frame)
  have ok: "fetchGitHubStats ev p = Normal (github_shows a b p)"
    if "starsEl p = None \<or> badge_value d ''stars'' = Inr a"
      "forksEl p = None \<or> badge_value d ''forks'' = Inr b"
    using updateGitHubUI_shows [OF that] by (simp add: fetchGitHubStats_page t)
  have s: "fetchGitHubStats ev p = Normal (github_shows placeholder placeholder
         (logged ''[OMX] Failed to fetch GitHub stats:'' e p))"
    if "starsEl p \<noteq> None" "badge_value d ''stars'' = Inl e"
  proof -
    have "github_try ev p = Raised e p"
      using updateGitHubUI_raises_stars [OF that] by (simp add: t)
    then show ?thesis by (rule github_caught) simp_all
  qed
  have f: "fetchGitHubStats ev p = Normal (github_shows placeholder placeholder
         (logged ''[OMX] Failed to fetch GitHub stats:'' e p))"
    if "starsEl p = None \<or> badge_value d ''stars'' = Inr a"
      "forksEl p \<noteq> None" "badge_value d ''forks'' = Inl e"
  proof -
    have "github_try ev p = Raised e (p\<lparr>starsEl := map_option (\<lambda>_. a) (starsEl p)\<rparr>)"
      using updateGitHubUI_raises_forks [OF that] by (simp add: t)
    then show ?thesis by (rule github_caught) auto
  qed
  from frame ok s f show ?thesis by blast
qed

lemma npm_hit_outcome:
  assumes hit: "entry_age (now_check ev) (sessionStorage p npm_key) = Some (d, age)"
    "age < 5 * 60 * 1000"
  shows "requests (page_of (fetchNpmDownloads ev p)) = requests p \<and>
    sessionStorage (page_of (fetchNpmDownloads ev p)) = sessionStorage p \<and>
    (downloadsEl p = None \<or> badge_text d = Inr a \<longrightarrow>
       fetchNpmDownloads ev p = Normal (npm_shows a p)) \<and>
    (downloadsEl p \<noteq> None \<and> badge_text d = Inl e \<longrightarrow>
       fetchNpmDownloads ev p = Normal (npm_shows placeholder
         (logged ''[OMX] Failed to fetch npm downloads:'' e p)))"
proof -
  have t: "npm_try ev p = updateNpmUI d p" using hit by (rule npm_hit)
  have frame: "requests (page_of (fetchNpmDownloads ev p)) = requests p"
    "sessionStorage (page_of (fetchNpmDownloads ev p)) = sessionStorage p"
    by (simp_all add: fetch_keeps t updateNpmUI_frame)
  have ok: "fetchNpmDownloads ev p = Normal (npm_shows a p)"
    if "downloadsEl p = None \<or> badge_text d = Inr a"
    using updateNpmUI_shows [OF that] by (simp add: fetchNpmDownloads_page t)
  have r: "fetchNpmDownloads ev p = Normal (npm_shows placeholder
         (logged ''[OMX] Failed to fetch npm downloads:'' e p))"
    if "downloadsEl p \<noteq> None" "badge_text d = Inl e"
    using updateNpmUI_raises [OF that]
    by (simp add: fetchNpmDownloads_page t npm_shows_def logged_def)
  from frame ok r show ?thesis by blast
qed

text \<open>
  Claim C1, as stated, fails: a fresh entry is not always rendered. After a reply \<open>200\<close>
  with the stars and without the forks the code caches the stars and an undefined forks
  count. Four minutes later that entry is fresh and no request is made, but rendering it
  throws at the forks, the failure is logged, and the stars badge shows the placeholder
  instead of the cached 999.
\<close>

theorem fresh_entry_not_rendered:
  "sessionStorage (page_of (fetchGitHubStats env_partial stats0)) github_key
     = sessionStorage partial_page github_key \<and>
   entry_age (now_check env_down) (sessionStorage partial_page github_key)
     = Some (Obj [(''stars'', Num 999), (''forks'', Undefined)], 240000) \<and>
   requests (page_of (fetchGitHubStats env_down partial_page)) = [] \<and>
   starsEl (page_of (fetchGitHubStats env_down partial_page)) = Some placeholder \<and>
   forksEl (page_of (fetchGitHubStats env_down partial_page)) = Some placeholder \<and>
   console (page_of (fetchGitHubStats env_down partial_page))
     = [(''[OMX] Failed to fetch GitHub stats:'', TypeError)] \<and>
   formatNumber (Num 999) = Inr ''999'' \<and>
   placeholder \<noteq> ''999''"
  by (simp add: fetchGitHubStats_def github_try_def github_refresh_def updateGitHubUI_def
      badge_value_def badge_text_def partial_page_def stats0_def env_partial_def env_down_def
      cached_at_def cacheTTL_def placeholder_def decimal.simps digit_def Let_def)

text \<open>
  Claim C1, amended. For each fetcher: with an entry under its key whose age at the check is
  less than 5 minutes, no request is made and the cache is left as it is; the payload is
  rendered into the badges that exist when each field to show is a number, shown as
  \<open>formatNumber\<close> gives it, or \<open>null\<close>, shown as the placeholder; when a field to show is
  undefined, rendering throws, the error is logged and the badges show the placeholder.
  With no entry, or an entry aged 5 minutes or more, exactly one request goes to the
  fetcher's endpoint.
\<close>

theorem stat_cache_hit_or_one_request:
  "(entry_age (now_check ev) (sessionStorage p github_key) = Some (d, age) \<and>
    age < 5 * 60 * 1000 \<longrightarrow>
      requests (page_of (fetchGitHubStats ev p)) = requests p \<and>
      sessionStorage (page_of (fetchGitHubStats ev p)) = sessionStorage p \<and>
      ((starsEl p = None \<or> badge_value d ''stars'' = Inr a) \<and>
       (forksEl p = None \<or> badge_value d ''forks'' = Inr b) \<longrightarrow>
         fetchGitHubStats ev p = Normal (github_shows a b p)) \<and>
      (starsEl p \<noteq> None \<and> badge_value d ''stars'' = Inl e \<longrightarrow>
         fetchGitHubStats ev p = Normal (github_shows placeholder placeholder
           (logged ''[OMX] Failed to fetch GitHub stats:'' e p))) \<and>
      ((starsEl p = None \<or> badge_value d ''stars'' = Inr a) \<and>
       forksEl p \<noteq> None \<and> badge_value d ''forks'' = Inl e \<longrightarrow>
         fetchGitHubStats ev p = Normal (github_shows placeholder placeholder
           (logged ''[OMX] Failed to fetch GitHub stats:'' e p)))) \<and>
   (sessionStorage p github_key = None \<or>
    (entry_age (now_check ev) (sessionStorage p github_key) = Some (d, age) \<and>
     5 * 60 * 1000 \<le> age)
    \<longrightarrow> requests (page_of (fetchGitHubStats ev p)) = requests p @ [github_url]) \<and>
   (entry_age (now_check ev) (sessionStorage p npm_key) = Some (d, age) \<and>
    age < 5 * 60 * 1000 \<longrightarrow>
      requests (page_of (fetchNpmDownloads ev p)) = requests p \<and>
      sessionStorage (page_of (fetchNpmDownloads ev p)) = sessionStorage p \<and>
      (downloadsEl p = None \<or> badge_text d = Inr a \<longrightarrow>
         fetchNpmDownloads ev p = Normal (npm_shows a p)) \<and>
      (downloadsEl p \<noteq> None \<and> badge_text d = Inl e \<longrightarrow>
         fetchNpmDownloads ev p = Normal (npm_shows placeholder
           (logged ''[OMX] Failed to fetch npm downloads:'' e p)))) \<and>
   (sessionStorage p npm_key = None \<or>
    (entry_age (now_check ev) (sessionStorage p npm_key) = Some (d, age) \<and>
     5 * 60 * 1000 \<le> age)
    \<longrightarrow> requests (page_of (fetchNpmDownloads ev p)) = requests p @ [npm_url]) \<and>
   (get_prop d k = Inr (Num n) \<longrightarrow> badge_value d k = formatNumber (Num n)) \<and>
   (get_prop d k = Inr Null \<longrightarrow> badge_value d k = Inr placeholder) \<and>
   (get_prop d k = Inr Undefined \<longrightarrow> badge_value d k = Inl TypeError) \<and>
   badge_text (Num n) = formatNumber (Num n) \<and>
   badge_text Null = Inr placeholder \<and>
   badge_text Undefined = Inl TypeError"
proof -
  have gh_miss: "requests (page_of (fetchGitHubStats ev p)) = requests p @ [github_url]"
    if "sessionStorage p github_key = None \<or>
      (entry_age (now_check ev) (sessionStorage p github_key) = Some (d, age) \<and>
       5 * 60 * 1000 \<le> age)"
  proof -
    have "github_try ev p = github_refresh ev p" using that by (rule github_miss)
    then show ?thesis by (simp add: fetch_keeps github_refresh_requests)
  qed
  have npm_miss': "requests (page_of (fetchNpmDownloads ev p)) = requests p @ [npm_url]"
    if "sessionStorage p npm_key = None \<or>
      (entry_age (now_check ev) (sessionStorage p npm_key) = Some (d, age) \<and>
       5 * 60 * 1000 \<le> age)"
  proof -
    have "npm_try ev p = npm_refresh ev p" using that by (rule npm_miss)
    then show ?thesis by (simp add: fetch_keeps npm_refresh_requests)
  qed
  from github_hit_outcome [of ev p d age a b e] npm_hit_outcome [of ev p d age a e]
    gh_miss npm_miss' badge_pins [of d k n]
  show ?thesis by blast
qed

lemma decimal_999: "decimal 999 = ''999''"
  by (simp add: decimal.simps digit_def)

theorem stat_cache_hit_or_one_request_witness:
  "entry_age (now_check env0) (sessionStorage github_hit_page github_key)
     = Some (Obj [(''stars'', Num 999), (''forks'', Null)], 240000) \<and>
   requests (page_of (fetchGitHubStats env0 github_hit_page)) = [] \<and>
   fetchGitHubStats env0 github_hit_page
     = Normal (github_hit_page\<lparr>starsEl := Some ''999'', forksEl := Some placeholder\<rparr>) \<and>
   sessionStorage stats0 github_key = None \<and>
   requests (page_of (fetchGitHubStats env0 stats0)) = [github_url] \<and>
   entry_age (now_check env0) (sessionStorage hit_page npm_key) = Some (Num 999, 240000) \<and>
   requests (page_of (fetchNpmDownloads env0 hit_page)) = [] \<and>
   fetchNpmDownloads env0 hit_page = Normal (hit_page\<lparr>downloadsEl := Some ''999''\<rparr>) \<and>
   entry_age (now_check env0) (sessionStorage stale_page npm_key) = Some (Num 999, 360000) \<and>
   requests (page_of (fetchNpmDownloads env0 stale_page)) = [npm_url]"
proof -
  let ?g = "Obj [(''stars'', Num 999), (''forks'', Null)]"
  have g1: "entry_age (now_check env0) (sessionStorage github_hit_page github_key)
      = Some (?g, 240000)"
    by (simp add: github_hit_page_def cached_at_def env0_def)
  have g2: "starsEl github_hit_page = None \<or> badge_value ?g ''stars'' = Inr ''999''"
    "forksEl github_hit_page = None \<or> badge_value ?g ''forks'' = Inr placeholder"
    by (simp_all add: badge_value_def badge_text_def decimal_999)
  have g3: "sessionStorage stats0 github_key = None"
    by (simp add: stats0_def)
  have n1: "entry_age (now_check env0) (sessionStorage hit_page npm_key) = Some (Num 999, 240000)"
    by (simp add: hit_page_def cached_at_def env0_def)
  have n2: "downloadsEl hit_page = None \<or> badge_text (Num 999) = Inr ''999''"
    by (simp add: badge_text_def decimal_999)
  have n3: "entry_age (now_check env0) (sessionStorage stale_page npm_key) = Some (Num 999, 360000)"
    by (simp add: stale_page_def cached_at_def env0_def)
  note gh = stat_cache_hit_or_one_request
    [of env0 github_hit_page ?g 240000 "''999''" placeholder TypeError "''stars''" 999]
  note g0 = stat_cache_hit_or_one_request
    [of env0 stats0 ?g 240000 "''999''" placeholder TypeError "''stars''" 999]
  note nh = stat_cache_hit_or_one_request
    [of env0 hit_page "Num 999" 240000 "''999''" placeholder TypeError "''stars''" 999]
  note ns = stat_cache_hit_or_one_request
    [of env0 stale_page "Num 999" 360000 "''999''" placeholder TypeError "''stars''" 999]
  from gh g1 have "requests (page_of (fetchGitHubStats env0 github_hit_page)) = requests github_hit_page"
    by simp
  then have r1: "requests (page_of (fetchGitHubStats env0 github_hit_page)) = []"
    by (simp add: github_hit_page_def stats0_def)
  from gh g1 g2 have "fetchGitHubStats env0 github_hit_page
      = Normal (github_shows ''999'' placeholder github_hit_page)"
    by simp
  then have f1: "fetchGitHubStats env0 github_hit_page
     = Normal (github_hit_page\<lparr>starsEl := Some ''999'', forksEl := Some placeholder\<rparr>)"
    by (simp add: github_shows_def github_hit_page_def stats0_def)
  from g0 g3 have "requests (page_of (fetchGitHubStats env0 stats0)) = requests stats0 @ [github_url]"
    by simp
  then have r2: "requests (page_of (fetchGitHubStats env0 stats0)) = [github_url]"
    by (simp add: stats0_def)
  from nh n1 have "requests (page_of (fetchNpmDownloads env0 hit_page)) = requests hit_page"
    by simp
  then have r3: "requests (page_of (fetchNpmDownloads env0 hit_page)) = []"
    by (simp add: hit_page_def stats0_def)
  from nh n1 n2 have "fetchNpmDownloads env0 hit_page = Normal (npm_shows ''999'' hit_page)"
    by simp
  then have f3: "fetchNpmDownloads env0 hit_page = Normal (hit_page\<lparr>downloadsEl := Some ''999''\<rparr>)"
    by (simp add: npm_shows_def hit_page_def stats0_def)
  from ns n3 have "requests (page_of (fetchNpmDownloads env0 stale_page)) = requests stale_page @ [npm_url]"
    by simp
  then have r4: "requests (page_of (fetchNpmDownloads env0 stale_page)) = [npm_url]"
    by (simp add: stale_page_def stats0_def)
  from g1 r1 f1 g3 r2 n1 r3 f3 n3 r4 show ?thesis by blast
qed

text \<open>
  Claim C2, as stated, fails: the cache is written before the value is rendered. On
  the reply \<open>200 {}\<close>, which lacks the count, the entry is written with an undefined payload,
  rendering it throws, and the failure is logged and the placeholder shown over a changed
  cache.
\<close>

theorem malformed_reply_overwrites_cache:
  "sessionStorage stats0 npm_key = None \<and>
   reply env0 = Response True (Some (Obj [])) \<and>
   console (page_of (fetchNpmDownloads env0 stats0))
     = [(''[OMX] Failed to fetch npm downloads:'', TypeError)] \<and>
   downloadsEl (page_of (fetchNpmDownloads env0 stats0)) = Some placeholder \<and>
   sessionStorage (page_of (fetchNpmDownloads env0 stats0)) npm_key
     = Some (cached_at 1000250 Undefined)"
  by (simp add: fetchNpmDownloads_def npm_try_def npm_refresh_def updateNpmUI_def badge_text_def
      stats0_def env0_def cached_at_def Let_def)

text \<open>
  Claim C2, amended. For each fetcher, a failure met before the cache write (network error,
  response not ok, body that is not JSON or is \<open>null\<close>) leaves the session storage as it
  was and makes the attempt fail; on every failure of the \<open>try\<close> block the placeholder is
  written into every badge of the fetcher that exists and one line is logged; and no call
  ever ends in an error.
\<close>

theorem stat_failure_absorbed:
  "is_Normal (fetchGitHubStats ev p) \<and> is_Normal (fetchNpmDownloads ev p) \<and>
   (pre_write_failure (reply ev) \<longrightarrow>
      sessionStorage (page_of (fetchGitHubStats ev p)) = sessionStorage p \<and>
      sessionStorage (page_of (fetchNpmDownloads ev p)) = sessionStorage p) \<and>
   (pre_write_failure (reply ev) \<and> requests (page_of (github_try ev p)) \<noteq> requests p \<longrightarrow>
      \<not> is_Normal (github_try ev p)) \<and>
   (pre_write_failure (reply ev) \<and> requests (page_of (npm_try ev p)) \<noteq> requests p \<longrightarrow>
      \<not> is_Normal (npm_try ev p)) \<and>
   (\<not> is_Normal (github_try ev p) \<longrightarrow>
      starsEl (page_of (fetchGitHubStats ev p)) = map_option (\<lambda>_. placeholder) (starsEl p) \<and>
      forksEl (page_of (fetchGitHubStats ev p)) = map_option (\<lambda>_. placeholder) (forksEl p) \<and>
      map fst (console (page_of (fetchGitHubStats ev p)))
        = map fst (console p) @ [''[OMX] Failed to fetch GitHub stats:'']) \<and>
   (\<not> is_Normal (npm_try ev p) \<longrightarrow>
      downloadsEl (page_of (fetchNpmDownloads ev p)) = map_option (\<lambda>_. placeholder) (downloadsEl p) \<and>
      map fst (console (page_of (fetchNpmDownloads ev p)))
        = map fst (console p) @ [''[OMX] Failed to fetch npm downloads:''])"
proof -
  have normal: "is_Normal (fetchGitHubStats ev p)" "is_Normal (fetchNpmDownloads ev p)"
    by (simp_all add: fetchGitHubStats_page fetchNpmDownloads_page split: completion.splits)
  have gh_store: "sessionStorage (page_of (github_try ev p)) = sessionStorage p"
    and gh_fail: "requests (page_of (github_try ev p)) \<noteq> requests p \<longrightarrow> \<not> is_Normal (github_try ev p)"
    if "pre_write_failure (reply ev)"
    using github_try_cases [of ev p] github_refresh_failure [OF that, of p]
    by (auto simp: updateGitHubUI_frame)
  have npm_store: "sessionStorage (page_of (npm_try ev p)) = sessionStorage p"
    and npm_fail: "requests (page_of (npm_try ev p)) \<noteq> requests p \<longrightarrow> \<not> is_Normal (npm_try ev p)"
    if "pre_write_failure (reply ev)"
    using npm_try_cases [of ev p] npm_refresh_failure [OF that, of p]
    by (auto simp: updateNpmUI_frame)
  have gh_catch: "starsEl (page_of (fetchGitHubStats ev p)) = map_option (\<lambda>_. placeholder) (starsEl p) \<and>
      forksEl (page_of (fetchGitHubStats ev p)) = map_option (\<lambda>_. placeholder) (forksEl p) \<and>
      map fst (console (page_of (fetchGitHubStats ev p)))
        = map fst (console p) @ [''[OMX] Failed to fetch GitHub stats:'']"
    if failed: "\<not> is_Normal (github_try ev p)"
  proof -
    obtain e q where r: "github_try ev p = Raised e q"
      using failed by (cases "github_try ev p") auto
    have el: "(starsEl q = None) = (starsEl p = None)" "(forksEl q = None) = (forksEl p = None)"
      "console q = console p"
      using github_try_elements [of ev p] by (simp_all add: r)
    have "map_option (\<lambda>_. placeholder) (starsEl q) = map_option (\<lambda>_. placeholder) (starsEl p)"
      using el(1) by (cases "starsEl q"; cases "starsEl p") simp_all
    moreover have "map_option (\<lambda>_. placeholder) (forksEl q) = map_option (\<lambda>_. placeholder) (forksEl p)"
      using el(2) by (cases "forksEl q"; cases "forksEl p") simp_all
    ultimately show ?thesis by (simp add: fetchGitHubStats_page r el(3))
  qed
  have npm_catch: "downloadsEl (page_of (fetchNpmDownloads ev p)) = map_option (\<lambda>_. placeholder) (downloadsEl p) \<and>
      map fst (console (page_of (fetchNpmDownloads ev p)))
        = map fst (console p) @ [''[OMX] Failed to fetch npm downloads:'']"
    if failed: "\<not> is_Normal (npm_try ev p)"
  proof -
    obtain e q where r: "npm_try ev p = Raised e q"
      using failed by (cases "npm_try ev p") auto
    have el: "(downloadsEl q = None) = (downloadsEl p = None)" "console q = console p"
      using npm_try_elements [of ev p] by (simp_all add: r)
    have "map_option (\<lambda>_. placeholder) (downloadsEl q) = map_option (\<lambda>_. placeholder) (downloadsEl p)"
      using el(1) by (cases "downloadsEl q"; cases "downloadsEl p") simp_all
    then show ?thesis by (simp add: fetchNpmDownloads_page r el(2))
  qed
  from normal gh_store gh_fail npm_store npm_fail gh_catch npm_catch show ?thesis
    by (simp add: fetch_keeps)
qed

theorem stat_failure_absorbed_witness:
  "pre_write_failure (reply env_down) \<and>
   requests (page_of (npm_try env_down stale_page)) \<noteq> requests stale_page \<and>
   \<not> is_Normal (npm_try env_down stale_page) \<and>
   is_Normal (fetchNpmDownloads env_down stale_page) \<and>
   sessionStorage (page_of (fetchNpmDownloads env_down stale_page)) = sessionStorage stale_page \<and>
   downloadsEl (page_of (fetchNpmDownloads env_down stale_page)) = Some placeholder \<and>
   map fst (console (page_of (fetchNpmDownloads env_down stale_page)))
     = [''[OMX] Failed to fetch npm downloads:'']"
proof -
  have f: "pre_write_failure (reply env_down)"
    by (simp add: pre_write_failure_def env_down_def)
  have t: "npm_try env_down stale_page
      = Raised NetworkFailure (stale_page\<lparr>requests := [npm_url]\<rparr>)"
    by (simp add: npm_try_def npm_refresh_def stale_page_def stats0_def env_down_def
        cached_at_def cacheTTL_def)
  have r: "requests (page_of (npm_try env_down stale_page)) \<noteq> requests stale_page"
    unfolding t by (simp add: stale_page_def stats0_def)
  have n: "\<not> is_Normal (npm_try env_down stale_page)"
    by (simp add: t)
  note th = stat_failure_absorbed [of env_down stale_page]
  from th have a: "is_Normal (fetchNpmDownloads env_down stale_page)" by blast
  from th f have b: "sessionStorage (page_of (fetchNpmDownloads env_down stale_page))
      = sessionStorage stale_page" by blast
  from th n have "downloadsEl (page_of (fetchNpmDownloads env_down stale_page))
        = map_option (\<lambda>_. placeholder) (downloadsEl stale_page) \<and>
      map fst (console (page_of (fetchNpmDownloads env_down stale_page)))
        = map fst (console stale_page) @ [''[OMX] Failed to fetch npm downloads:'']" by blast
  then have c: "downloadsEl (page_of (fetchNpmDownloads env_down stale_page)) = Some placeholder"
    and d: "map fst (console (page_of (fetchNpmDownloads env_down stale_page)))
        = [''[OMX] Failed to fetch npm downloads:'']"
    by (simp_all add: stale_page_def stats0_def)
  from f r n a b c d show ?thesis by blast
qed

subsection \<open>Number formatting\<close>

lemma rne_error:
  assumes "0 < b"
  shows "\<bar>(of_nat (rne a b) :: rat) - of_nat a / of_nat b\<bar> \<le> 1 / 2"
proof -
  define q where "q = a div b"
  define r where "r = a mod b"
  have a: "a = q * b + r" by (simp add: q_def r_def)
  have rb: "r < b" using assms by (simp add: r_def)
  have bpos: "(0::rat) < of_nat b" using assms by simp
  have quot: "(of_nat a :: rat) / of_nat b = of_nat q + of_nat r / of_nat b"
    using assms by (simp add: a field_simps)
  consider (lo) "2 * r < b" | (hi) "b < 2 * r" | (tie) "2 * r = b" by linarith
  then show ?thesis
  proof cases
    case lo
    then have "rne a b = q" by (simp add: rne_def q_def r_def Let_def)
    moreover have "(of_nat r :: rat) / of_nat b \<le> 1 / 2"
    proof -
      have "(2 :: rat) * of_nat r \<le> of_nat b" using lo by (metis less_imp_le of_nat_le_iff of_nat_mult of_nat_numeral)
      then show ?thesis using bpos by (simp add: field_simps)
    qed
    moreover have "(0::rat) \<le> of_nat r / of_nat b" by simp
    ultimately show ?thesis by (simp add: quot)
  next
    case hi
    then have "rne a b = q + 1" by (simp add: rne_def q_def r_def Let_def)
    moreover have "(1::rat) / 2 \<le> of_nat r / of_nat b"
    proof -
      have "(of_nat b :: rat) \<le> 2 * of_nat r" using hi by (metis less_imp_le of_nat_le_iff of_nat_mult of_nat_numeral)
      then show ?thesis using bpos by (simp add: field_simps)
    qed
    moreover have "(of_nat r :: rat) / of_nat b \<le> 1" using rb bpos by (simp add: field_simps)
    ultimately show ?thesis by (simp add: quot)
  next
    case tie
    then have half: "(of_nat r :: rat) / of_nat b = 1 / 2"
    proof -
      have "(of_nat b :: rat) = 2 * of_nat r" using tie by (metis of_nat_mult of_nat_numeral)
      then show ?thesis using bpos by (simp add: field_simps)
    qed
    have "rne a b = q \<or> rne a b = q + 1" using tie by (simp add: rne_def q_def r_def Let_def)
    then show ?thesis by (auto simp: quot half)
  qed
qed

lemma fl_div_error:
  assumes d: "0 < d" and e: "log2 (n div d) \<le> 33"
  shows "\<bar>fl_div n d - of_nat n / of_nat d\<bar> \<le> 1 / 2 ^ 20"
proof -
  define s where "s = 52 - log2 (n div d)"
  have s19: "19 \<le> s" using e by (simp add: s_def)
  have fl: "fl_div n d = of_nat (rne (n * 2 ^ s) d) / 2 ^ s"
    using e by (simp add: fl_div_def Let_def s_def)
  have "\<bar>(of_nat (rne (n * 2 ^ s) d) :: rat) - of_nat (n * 2 ^ s) / of_nat d\<bar> \<le> 1 / 2"
    using d by (rule rne_error)
  then have "\<bar>(of_nat (rne (n * 2 ^ s) d) :: rat) - of_nat (n * 2 ^ s) / of_nat d\<bar> / 2 ^ s \<le> (1 / 2) / 2 ^ s"
    by (rule divide_right_mono) simp
  moreover have "\<bar>(of_nat (rne (n * 2 ^ s) d) :: rat) - of_nat (n * 2 ^ s) / of_nat d\<bar> / 2 ^ s
      = \<bar>fl_div n d - of_nat n / of_nat d\<bar>"
  proof -
    have "\<bar>(of_nat (rne (n * 2 ^ s) d) :: rat) - of_nat (n * 2 ^ s) / of_nat d\<bar> / 2 ^ s
      = \<bar>((of_nat (rne (n * 2 ^ s) d) :: rat) - of_nat (n * 2 ^ s) / of_nat d) / 2 ^ s\<bar>"
      by simp
    also have "((of_nat (rne (n * 2 ^ s) d) :: rat) - of_nat (n * 2 ^ s) / of_nat d) / 2 ^ s
      = fl_div n d - of_nat n / of_nat d"
      by (simp add: fl diff_divide_distrib)
    finally show ?thesis .
  qed
  moreover have "(1 / 2 :: rat) / 2 ^ s \<le> 1 / 2 ^ 20"
  proof -
    have "(2::rat) ^ 20 \<le> 2 ^ Suc s" using s19 by (intro power_increasing) auto
    then have "1 / (2::rat) ^ Suc s \<le> 1 / 2 ^ 20" by (intro divide_left_mono) auto
    then show ?thesis by simp
  qed
  ultimately show ?thesis by linarith
qed

lemma fl_div_nonneg: "0 \<le> fl_div n d"
  by (simp add: fl_div_def Let_def)

lemma toFixed1_nearest:
  assumes d: "d = 20 * c" and c: "0 < c" and x: "0 \<le> x"
    and close: "\<bar>x - of_nat n / of_nat d\<bar> < 1 / of_nat d"
  shows "\<exists>k. toFixed1 x = one_decimal k \<and> nearest_tenth k n d"
proof -
  define k where "k = nat \<lfloor>10 * x + 1 / 2\<rfloor>"
  have fl0: "0 \<le> \<lfloor>10 * x + 1 / 2\<rfloor>" using x by simp
  have kk: "(of_nat k :: rat) = of_int \<lfloor>10 * x + 1 / 2\<rfloor>"
    using fl0 by (simp add: k_def)
  have lo: "(of_nat k :: rat) \<le> 10 * x + 1 / 2" unfolding kk by (rule of_int_floor_le)
  have hi: "10 * x + 1 / 2 < (of_nat k :: rat) + 1" unfolding kk by (rule floor_correct [THEN conjunct2, simplified])
  have dpos: "(0::rat) < of_nat d" using d c by simp
  have dc: "(of_nat d :: rat) = 20 * of_nat c" using d by simp
  have cpos: "(0::rat) < of_nat c" using c by simp
  have up: "20 * n \<le> (2 * k + 1) * d"
  proof (rule ccontr)
    assume "\<not> 20 * n \<le> (2 * k + 1) * d"
    then have "(2 * k + 1) * c < n" using d by simp
    then have "(2 * k + 1) * c + 1 \<le> n" by simp
    then have "(of_nat ((2 * k + 1) * c + 1) :: rat) \<le> of_nat n" by (simp only: of_nat_le_iff)
    then have "(2 * of_nat k + 1) * of_nat c + 1 \<le> (of_nat n :: rat)" by (simp add: algebra_simps)
    then have "((2 * of_nat k + 1) * of_nat c + 1) / of_nat d \<le> (of_nat n :: rat) / of_nat d"
      using dpos by (simp add: divide_right_mono)
    moreover have "((2 * of_nat k + 1) * of_nat c + 1) / (of_nat d :: rat)
        = (2 * of_nat k + 1) / 20 + 1 / of_nat d"
      using cpos by (simp add: dc field_simps)
    ultimately have "(2 * of_nat k + 1) / 20 + 1 / of_nat d \<le> (of_nat n :: rat) / of_nat d" by simp
    with close have "(2 * of_nat k + 1) / 20 < x" by linarith
    with hi show False by simp
  qed
  have down: "(2 * k) * d \<le> 20 * n + d"
  proof (rule ccontr)
    assume "\<not> (2 * k) * d \<le> 20 * n + d"
    then have "n + c < 2 * k * c" using d by simp
    then have "n + c + 1 \<le> 2 * k * c" by simp
    then have "(of_nat (n + c + 1) :: rat) \<le> of_nat (2 * k * c)" by (simp only: of_nat_le_iff)
    then have "(of_nat n :: rat) \<le> 2 * of_nat k * of_nat c - of_nat c - 1" by (simp add: algebra_simps)
    then have "(of_nat n :: rat) / of_nat d \<le> (2 * of_nat k * of_nat c - of_nat c - 1) / of_nat d"
      using dpos by (simp add: divide_right_mono)
    moreover have "(2 * of_nat k * of_nat c - of_nat c - 1) / (of_nat d :: rat)
        = (2 * of_nat k - 1) / 20 - 1 / of_nat d"
      using cpos by (simp add: dc field_simps)
    ultimately have "(of_nat n :: rat) / of_nat d \<le> (2 * of_nat k - 1) / 20 - 1 / of_nat d" by simp
    with close have "x < (2 * of_nat k - 1) / 20" by linarith
    with lo show False by simp
  qed
  have "nearest_tenth k n d"
  proof -
    have "(of_nat (20 * n) :: rat) \<le> of_nat ((2 * k + 1) * d)" using up by (simp only: of_nat_le_iff)
    then have u: "20 * (of_nat n :: rat) \<le> (2 * of_nat k + 1) * of_nat d" by (simp add: algebra_simps)
    have "(of_nat ((2 * k) * d) :: rat) \<le> of_nat (20 * n + d)" using down by (simp only: of_nat_le_iff)
    then have l: "2 * of_nat k * (of_nat d :: rat) \<le> 20 * of_nat n + of_nat d" by (simp add: algebra_simps)
    have u': "(of_nat n :: rat) / of_nat d \<le> of_nat k / 10 + 1 / 20"
      using u dpos by (simp add: field_simps)
    have l': "of_nat k / 10 - 1 / 20 \<le> (of_nat n :: rat) / of_nat d"
      using l dpos by (simp add: field_simps)
    have "(of_nat k :: rat) / 10 - of_nat n / of_nat d \<le> 1 / 20" using l' by linarith
    moreover have "- ((of_nat k :: rat) / 10 - of_nat n / of_nat d) \<le> 1 / 20" using u' by linarith
    ultimately show ?thesis unfolding nearest_tenth_def by (rule abs_leI)
  qed
  moreover have "toFixed1 x = one_decimal k"
    by (simp add: toFixed1_def one_decimal_def k_def Let_def)
  ultimately show ?thesis by blast
qed

lemma toFixed1_fraction:
  assumes "0 < b"
  shows "toFixed1 (of_nat a / of_nat b) = one_decimal ((20 * a + b) div (2 * b))"
proof -
  have "10 * ((of_nat a :: rat) / of_nat b) + 1 / 2 = of_nat (20 * a + b) / of_nat (2 * b)"
    using assms by (simp add: field_simps)
  then have "\<lfloor>10 * ((of_nat a :: rat) / of_nat b) + 1 / 2\<rfloor> = int ((20 * a + b) div (2 * b))"
    by (simp only: floor_divide_of_nat_eq)
  then show ?thesis by (simp add: toFixed1_def one_decimal_def Let_def)
qed

lemma formatNumber_999: "formatNumber (Num 999) = Inr ''999''"
  by (simp add: decimal.simps digit_def)

lemma formatNumber_1500: "formatNumber (Num 1500) = Inr ''1.5k''"
proof -
  have "fl_div 1500 1000 = of_nat 3 / of_nat 2"
    by (simp add: fl_div_def rne_def Let_def log2.simps)
  then have "toFixed1 (fl_div 1500 1000) = one_decimal 15"
    by (simp only: toFixed1_fraction [of 2 3]) simp
  then show ?thesis by (simp add: one_decimal_def decimal.simps digit_def)
qed

lemma formatNumber_2500000: "formatNumber (Num 2500000) = Inr ''2.5M''"
proof -
  have "fl_div 2500000 1000000 = of_nat 5 / of_nat 2"
    by (simp add: fl_div_def rne_def Let_def log2.simps)
  then have "toFixed1 (fl_div 2500000 1000000) = one_decimal 25"
    by (simp only: toFixed1_fraction [of 2 5]) simp
  then show ?thesis by (simp add: one_decimal_def decimal.simps digit_def)
qed

lemma formatNumber_1150000: "formatNumber (Num 1150000) = Inr ''1.1M''"
proof -
  have "fl_div 1150000 1000000 = of_nat 2589569785738035 / of_nat 2251799813685248"
    by (simp add: fl_div_def rne_def Let_def log2.simps)
  then have "toFixed1 (fl_div 1150000 1000000) = one_decimal 11"
    by (simp only: toFixed1_fraction [of 2251799813685248 2589569785738035]) simp
  then show ?thesis by (simp add: one_decimal_def decimal.simps digit_def)
qed

lemma formatNumber_millions:
  assumes "n < 2 ^ 53" and "1000000 \<le> n"
  shows "\<exists>k. formatNumber (Num n) = Inr (one_decimal k @ ''M'') \<and> nearest_tenth k n 1000000"
proof -
  have "n div 1000000 < 2 ^ Suc 33" using assms(1) by simp
  then have e: "log2 (n div 1000000) \<le> 33" by (rule log2_less)
  have "\<bar>fl_div n 1000000 - of_nat n / of_nat 1000000\<bar> \<le> 1 / 2 ^ 20"
    using e by (intro fl_div_error) simp
  then have "\<bar>fl_div n 1000000 - of_nat n / of_nat 1000000\<bar> < 1 / of_nat 1000000"
    by simp
  then obtain k where "toFixed1 (fl_div n 1000000) = one_decimal k" "nearest_tenth k n 1000000"
    using toFixed1_nearest [of 1000000 50000 "fl_div n 1000000" n] fl_div_nonneg by auto
  then show ?thesis using assms(2) by auto
qed

lemma formatNumber_thousands:
  assumes "1000 \<le> n" and "n < 1000000"
  shows "\<exists>k. formatNumber (Num n) = Inr (one_decimal k @ ''k'') \<and> nearest_tenth k n 1000"
proof -
  have "n div 1000 < 2 ^ Suc 33" using assms(2) by simp
  then have e: "log2 (n div 1000) \<le> 33" by (rule log2_less)
  have "\<bar>fl_div n 1000 - of_nat n / of_nat 1000\<bar> \<le> 1 / 2 ^ 20"
    using e by (intro fl_div_error) simp
  then have "\<bar>fl_div n 1000 - of_nat n / of_nat 1000\<bar> < 1 / of_nat 1000"
    by simp
  then obtain k where "toFixed1 (fl_div n 1000) = one_decimal k" "nearest_tenth k n 1000"
    using toFixed1_nearest [of 1000 50 "fl_div n 1000" n] fl_div_nonneg by auto
  then show ?thesis using assms by auto
qed

lemma updateGitHubUI_null_stars:
  assumes "starsEl p \<noteq> None"
  shows "starsEl (page_of (updateGitHubUI (Obj [(''stars'', Null), (''forks'', v)]) p)) = Some placeholder"
  using assms
  by (cases "forksEl p"; cases "badge_text v")
     (auto simp: updateGitHubUI_def badge_value_def badge_text_def)

lemma updateGitHubUI_null_forks:
  assumes "forksEl p \<noteq> None"
    and "is_Normal (updateGitHubUI (Obj [(''stars'', v), (''forks'', Null)]) p)"
  shows "forksEl (page_of (updateGitHubUI (Obj [(''stars'', v), (''forks'', Null)]) p)) = Some placeholder"
  using assms
  by (cases "starsEl p"; cases "badge_text v")
     (auto simp: updateGitHubUI_def badge_value_def badge_text_def)

text \<open>
  Claim C8. A count below 2 ^ 53 is rendered as follows: from 1,000,000 on, as the quotient
  by 1,000,000 to one decimal place (a tenth nearest to it) followed by M; from 1,000 on,
  as the quotient by 1,000 to one decimal place followed by k; below, as its digits. So
  999, 1500 and 2500000 give 999, 1.5k and 2.5M. What a badge shows for a number is this
  text, in the downloads badge, the stars badge and the forks badge alike; and \<open>null\<close> is
  rendered as the placeholder by either renderer, in every badge it is shown in.
\<close>

theorem formatNumber_rendering:
  assumes "n < 2 ^ 53"
  shows "(1000000 \<le> n \<longrightarrow>
      (\<exists>k. formatNumber (Num n) = Inr (one_decimal k @ ''M'') \<and> nearest_tenth k n 1000000)) \<and>
    (1000 \<le> n \<and> n < 1000000 \<longrightarrow>
      (\<exists>k. formatNumber (Num n) = Inr (one_decimal k @ ''k'') \<and> nearest_tenth k n 1000)) \<and>
    (n < 1000 \<longrightarrow> formatNumber (Num n) = Inr (decimal n)) \<and>
    formatNumber (Num 999) = Inr ''999'' \<and>
    formatNumber (Num 1500) = Inr ''1.5k'' \<and>
    formatNumber (Num 2500000) = Inr ''2.5M'' \<and>
    badge_text (Num n) = formatNumber (Num n) \<and>
    (formatNumber (Num n) = Inr s \<longrightarrow> updateNpmUI (Num n) p = Normal (npm_shows s p)) \<and>
    (get_prop stats ''stars'' = Inr (Num n) \<and> formatNumber (Num n) = Inr s \<and>
     get_prop stats ''forks'' = Inr w \<and> badge_text w = Inr b \<longrightarrow>
       updateGitHubUI stats p = Normal (github_shows s b p)) \<and>
    (get_prop stats ''stars'' = Inr w \<and> badge_text w = Inr a \<and>
     get_prop stats ''forks'' = Inr (Num n) \<and> formatNumber (Num n) = Inr s \<longrightarrow>
       updateGitHubUI stats p = Normal (github_shows a s p)) \<and>
    badge_text Null = Inr placeholder \<and>
    updateNpmUI Null p = Normal (p\<lparr>downloadsEl := map_option (\<lambda>_. placeholder) (downloadsEl p)\<rparr>) \<and>
    (starsEl p \<noteq> None \<longrightarrow>
      starsEl (page_of (updateGitHubUI (Obj [(''stars'', Null), (''forks'', v)]) p)) = Some placeholder) \<and>
    (forksEl p \<noteq> None \<and> is_Normal (updateGitHubUI (Obj [(''stars'', v), (''forks'', Null)]) p) \<longrightarrow>
      forksEl (page_of (updateGitHubUI (Obj [(''stars'', v), (''forks'', Null)]) p)) = Some placeholder)"
proof -
  have m: "1000000 \<le> n \<longrightarrow>
      (\<exists>k. formatNumber (Num n) = Inr (one_decimal k @ ''M'') \<and> nearest_tenth k n 1000000)"
    using assms by (blast intro: formatNumber_millions)
  have k: "1000 \<le> n \<and> n < 1000000 \<longrightarrow>
      (\<exists>k. formatNumber (Num n) = Inr (one_decimal k @ ''k'') \<and> nearest_tenth k n 1000)"
    by (blast intro: formatNumber_thousands)
  have d: "n < 1000 \<longrightarrow> formatNumber (Num n) = Inr (decimal n)"
    by simp
  have bn: "badge_text (Num n) = formatNumber (Num n)"
    and b: "badge_text Null = Inr placeholder"
    by (simp_all add: badge_text_def)
  have dl: "formatNumber (Num n) = Inr s \<longrightarrow> updateNpmUI (Num n) p = Normal (npm_shows s p)"
    using updateNpmUI_shows [of p "Num n" s] by (simp add: bn)
  have st: "get_prop stats ''stars'' = Inr (Num n) \<and> formatNumber (Num n) = Inr s \<and>
     get_prop stats ''forks'' = Inr w \<and> badge_text w = Inr b \<longrightarrow>
       updateGitHubUI stats p = Normal (github_shows s b p)"
    using updateGitHubUI_shows [of p stats s b] by (simp add: badge_value_def bn)
  have fk: "get_prop stats ''stars'' = Inr w \<and> badge_text w = Inr a \<and>
     get_prop stats ''forks'' = Inr (Num n) \<and> formatNumber (Num n) = Inr s \<longrightarrow>
       updateGitHubUI stats p = Normal (github_shows a s p)"
    using updateGitHubUI_shows [of p stats a s] by (simp add: badge_value_def bn)
  from m k d bn b dl st fk formatNumber_999 formatNumber_1500 formatNumber_2500000
    updateNpmUI_null [of p] updateGitHubUI_null_stars [of p v] updateGitHubUI_null_forks [of p v]
  show ?thesis by blast
qed

theorem formatNumber_rendering_witness:
  "(1150000::nat) < 2 ^ 53 \<and> (1000000::nat) \<le> 1150000 \<and>
   formatNumber (Num 1150000) = Inr ''1.1M'' \<and>
   nearest_tenth 11 1150000 1000000 \<and>
   (\<exists>k. formatNumber (Num 1150000) = Inr (one_decimal k @ ''M'') \<and> nearest_tenth k 1150000 1000000) \<and>
   formatNumber (Num 999) = Inr ''999'' \<and>
   updateNpmUI (Num 1150000) stats0 = Normal (stats0\<lparr>downloadsEl := Some ''1.1M''\<rparr>) \<and>
   updateGitHubUI (Obj [(''stars'', Num 1150000), (''forks'', Null)]) stats0
     = Normal (stats0\<lparr>starsEl := Some ''1.1M'', forksEl := Some placeholder\<rparr>) \<and>
   starsEl (page_of (updateGitHubUI (Obj [(''stars'', Null), (''forks'', Num 999)]) stats0))
     = Some placeholder \<and>
   placeholder \<noteq> ''1.1M''"
proof -
  let ?g = "Obj [(''stars'', Num 1150000), (''forks'', Null)]"
  have a: "(1150000::nat) < 2 ^ 53" "(1000000::nat) \<le> 1150000" by simp_all
  note th = formatNumber_rendering [OF a(1), of "''1.1M''" stats0 ?g Null placeholder "''''" "Num 999"]
  from th a(2) have e: "\<exists>k. formatNumber (Num 1150000) = Inr (one_decimal k @ ''M'')
      \<and> nearest_tenth k 1150000 1000000" by blast
  from th have n: "formatNumber (Num 999) = Inr ''999''" by blast
  from th formatNumber_1150000 have "updateNpmUI (Num 1150000) stats0 = Normal (npm_shows ''1.1M'' stats0)"
    by blast
  then have dl: "updateNpmUI (Num 1150000) stats0 = Normal (stats0\<lparr>downloadsEl := Some ''1.1M''\<rparr>)"
    by (simp add: npm_shows_def stats0_def)
  have g: "get_prop ?g ''stars'' = Inr (Num 1150000)" "get_prop ?g ''forks'' = Inr Null"
    by simp_all
  from th have bnull: "badge_text Null = Inr placeholder" by blast
  from th g formatNumber_1150000 bnull
  have "updateGitHubUI ?g stats0 = Normal (github_shows ''1.1M'' placeholder stats0)"
    by blast
  then have gh: "updateGitHubUI ?g stats0
     = Normal (stats0\<lparr>starsEl := Some ''1.1M'', forksEl := Some placeholder\<rparr>)"
    by (simp add: github_shows_def stats0_def)
  have s: "starsEl stats0 \<noteq> None" by (simp add: stats0_def)
  from th s have ns: "starsEl (page_of (updateGitHubUI (Obj [(''stars'', Null), (''forks'', Num 999)]) stats0))
     = Some placeholder" by blast
  have t: "nearest_tenth 11 1150000 1000000" by (simp add: nearest_tenth_def)
  have p: "placeholder \<noteq> ''1.1M''" by (simp add: placeholder_def)
  from a e n dl gh ns t p formatNumber_1150000 show ?thesis by blast
qed

end
